theory Spec2Isabelle
  imports Complex_Main "HOL-Library.Word" "HOL-Library.Signed_Division" "HOL-Library.Multiset"
    "HOL-Library.Option_ord"
begin

section \<open>kubectl-free: the command options and the quantity formatter\<close>

text \<open>
  Go's \<^verbatim>\<open>int64\<close> is a 64-bit word read in two's complement. Comparison is the signed
  one (\<open><s\<close>), and \<^verbatim>\<open>a / b\<close> truncates towards zero and wraps on the one overflowing
  quotient.
\<close>

type_synonym int64 = "64 word"

definition div64 :: "int64 \<Rightarrow> int64 \<Rightarrow> int64" where
  "div64 a b = word_of_int (sint a sdiv sint b)"

subsection \<open>strconv.FormatInt in base 10\<close>

definition digitChar :: "nat \<Rightarrow> char" where
  "digitChar d = char_of (48 + d)"

fun digits :: "nat \<Rightarrow> string" where
  "digits n = (if n < 10 then [digitChar n] else digits (n div 10) @ [digitChar (n mod 10)])"

declare digits.simps [simp del]

definition formatInt :: "int \<Rightarrow> string" where
  "formatInt v = (if v < 0 then CHR ''-'' # digits (nat (- v)) else digits (nat v))"

definition FormatInt :: "int64 \<Rightarrow> string" where
  "FormatInt i = formatInt (sint i)"

subsection \<open>FreeOptions\<close>

text \<open>
  The fields of \<^verbatim>\<open>FreeOptions\<close> that the functions below read. \<^verbatim>\<open>sortResource\<close> is a
  Go string type with the two values \<^verbatim>\<open>memorySortResource\<close> and \<^verbatim>\<open>cpuSortResource\<close>.
\<close>

type_synonym sortResource = string

definition memorySortResource :: sortResource where
  "memorySortResource = ''memory''"

definition cpuSortResource :: sortResource where
  "cpuSortResource = ''cpu''"

record FreeOptions =
  noHeaders :: bool
  noMetrics :: bool
  compactView :: bool
  bytes :: bool
  kByte :: bool
  mByte :: bool
  gByte :: bool
  withoutUnit :: bool
  binPrefix :: bool
  nocolor :: bool
  warnThreshold :: int64
  critThreshold :: int64
  list :: bool
  listContainerImage :: bool
  listAll :: bool
  sortByResource :: sortResource
  listTableHeaders :: "string list"
  emojiStatus :: bool
  labelSelector :: string

subsection \<open>Units (package util)\<close>

text \<open>
  Modelled from the spec: \<^verbatim>\<open>util.GetSiUnit\<close> and \<^verbatim>\<open>util.GetBinUnit\<close> are not among the
  sources. The spec gives the unit systems (decimal: 1000-based B/K/M/G; binary:
  1024-based B/Ki/Mi/Gi) and an explicit unit override by the four flags. Which unit the
  four flags select is left open by the spec and is the parameter \<open>pick\<close>; the byte
  count and the suffix of each unit are the spec's.
\<close>

datatype unit_size = UnitBytes | UnitKilo | UnitMega | UnitGiga

fun siBytes :: "unit_size \<Rightarrow> int64" where
  "siBytes UnitBytes = 1"
| "siBytes UnitKilo = 1000"
| "siBytes UnitMega = 1000000"
| "siBytes UnitGiga = 1000000000"

fun siStr :: "unit_size \<Rightarrow> string" where
  "siStr UnitBytes = ''B''"
| "siStr UnitKilo = ''K''"
| "siStr UnitMega = ''M''"
| "siStr UnitGiga = ''G''"

fun binBytes :: "unit_size \<Rightarrow> int64" where
  "binBytes UnitBytes = 1"
| "binBytes UnitKilo = 1024"
| "binBytes UnitMega = 1048576"
| "binBytes UnitGiga = 1073741824"

fun binStr :: "unit_size \<Rightarrow> string" where
  "binStr UnitBytes = ''B''"
| "binStr UnitKilo = ''Ki''"
| "binStr UnitMega = ''Mi''"
| "binStr UnitGiga = ''Gi''"

type_synonym unit_choice = "bool \<Rightarrow> bool \<Rightarrow> bool \<Rightarrow> bool \<Rightarrow> unit_size"

definition GetSiUnit :: "unit_choice \<Rightarrow> bool \<Rightarrow> bool \<Rightarrow> bool \<Rightarrow> bool \<Rightarrow> int64 \<times> string" where
  "GetSiUnit pick b k m g = (siBytes (pick b k m g), siStr (pick b k m g))"

definition GetBinUnit :: "unit_choice \<Rightarrow> bool \<Rightarrow> bool \<Rightarrow> bool \<Rightarrow> bool \<Rightarrow> int64 \<times> string" where
  "GetBinUnit pick b k m g = (binBytes (pick b k m g), binStr (pick b k m g))"

subsection \<open>toUnit, toUnitOrDash\<close>

definition toUnit :: "unit_choice \<Rightarrow> FreeOptions \<Rightarrow> int64 \<Rightarrow> string" where
  "toUnit pick o' i =
     (let (unitbytes, unitstr) =
            (if binPrefix o' then GetBinUnit pick (bytes o') (kByte o') (mByte o') (gByte o')
             else GetSiUnit pick (bytes o') (kByte o') (mByte o') (gByte o'));
          unit = (if \<not> withoutUnit o' then unitstr else '''')
      in FormatInt (div64 i unitbytes) @ unit)"

definition toUnitOrDash :: "unit_choice \<Rightarrow> FreeOptions \<Rightarrow> int64 \<Rightarrow> string" where
  "toUnitOrDash pick o' i = (if i = 0 then ''-'' else toUnit pick o' i)"

subsection \<open>resource.NewMilliQuantity(i, resource.DecimalSI).String()\<close>

text \<open>
  The canonical text of a milli-quantity comes from k8s.io/apimachinery, a dependency
  of the program. Its steps for an \<^verbatim>\<open>int64\<close> amount at scale \<open>-3\<close>: zero prints as
  \<^verbatim>\<open>0\<close>; otherwise \<^verbatim>\<open>removeInt64Factors\<close> strips the trailing decimal zeros into the
  exponent, \<^verbatim>\<open>AsCanonicalBytes\<close> scales the mantissa back by 10 or 100 until the exponent
  is a multiple of 3, and the decimal SI suffix of that exponent follows the mantissa.
  The mantissa never exceeds the magnitude of the amount, so the library's overflow
  fallback is not reached and the mantissa is computed on \<open>int\<close>.
\<close>

fun removeInt64Factors :: "nat \<Rightarrow> nat \<times> nat" where
  "removeInt64Factors n =
     (if n \<ge> 10 \<and> n mod 10 = 0
      then (let (r, times) = removeInt64Factors (n div 10) in (r, Suc times))
      else (n, 0))"

declare removeInt64Factors.simps [simp del]

definition AsCanonicalBytes :: "int \<Rightarrow> int \<times> int" where
  "AsCanonicalBytes v =
     (let (r, times) = removeInt64Factors (nat \<bar>v\<bar>);
          amount = (if v < 0 then - int r else int r);
          exponent = int times - 3
      in if exponent mod 3 = 1 then (amount * 10, exponent - 1)
         else if exponent mod 3 = 2 then (amount * 100, exponent - 2)
         else (amount, exponent))"

definition decimalSuffix :: "int \<Rightarrow> string" where
  "decimalSuffix e =
     (if e = -3 then ''m'' else if e = 0 then '''' else if e = 3 then ''k''
      else if e = 6 then ''M'' else if e = 9 then ''G'' else if e = 12 then ''T''
      else if e = 15 then ''P'' else if e = 18 then ''E''
      else CHR ''e'' # formatInt e)"

definition milliQuantityString :: "int64 \<Rightarrow> string" where
  "milliQuantityString i =
     (if i = 0 then ''0''
      else (let (number, exponent) = AsCanonicalBytes (sint i)
            in formatInt number @ decimalSuffix exponent))"

subsection \<open>toMilliUnitOrDash\<close>

definition toMilliUnitOrDash :: "FreeOptions \<Rightarrow> int64 \<Rightarrow> string" where
  "toMilliUnitOrDash o' i =
     (if i = 0 then ''-''
      else if withoutUnit o' then FormatInt i
      else milliQuantityString i)"

subsection \<open>toColorPercent\<close>

text \<open>
  \<^verbatim>\<open>util.Green\<close>, \<^verbatim>\<open>util.Yellow\<close> and \<^verbatim>\<open>util.Red\<close> rewrite the text in place with a
  colour; they are not among the sources. \<open>colorBand\<close> is the \<^verbatim>\<open>switch\<close> of
  \<^verbatim>\<open>toColorPercent\<close>, naming which of the three is called, and \<open>paint\<close> stands for
  the three functions.
\<close>

datatype color = Green | Yellow | Red

definition colorBand :: "FreeOptions \<Rightarrow> int64 \<Rightarrow> color" where
  "colorBand o' i =
     (if i <s warnThreshold o' then Green
      else if i <s critThreshold o' then Yellow
      else Red)"

definition toColorPercent :: "(color \<Rightarrow> string \<Rightarrow> string) \<Rightarrow> FreeOptions \<Rightarrow> int64 \<Rightarrow> string" where
  "toColorPercent paint o' i =
     (let p = FormatInt i @ ''%''
      in if nocolor o' then p else paint (colorBand o' i) p)"

section \<open>Container rows (showpods.go)\<close>

subsection \<open>resource.Quantity\<close>

text \<open>
  A \<^verbatim>\<open>resource.Quantity\<close> is a decimal number of k8s.io/apimachinery. It is modelled by
  its amount in units of one billionth, the finest scale the library keeps. \<^verbatim>\<open>Cmp\<close>
  compares the numbers; \<^verbatim>\<open>MilliValue\<close> and \<^verbatim>\<open>Value\<close> scale the amount to thousandths
  and to units, rounding a remainder away from zero, and return it as an \<^verbatim>\<open>int64\<close>.
\<close>

type_synonym Quantity = int

definition Cmp :: "Quantity \<Rightarrow> Quantity \<Rightarrow> int" where
  "Cmp q r = (if q < r then -1 else if q = r then 0 else 1)"

definition scaledValue :: "int \<Rightarrow> Quantity \<Rightarrow> int64" where
  "scaledValue unit q = word_of_int (sgn q * ((\<bar>q\<bar> + unit - 1) div unit))"

definition MilliValue :: "Quantity \<Rightarrow> int64" where
  "MilliValue q = scaledValue 1000000 q"

definition Value :: "Quantity \<Rightarrow> int64" where
  "Value q = scaledValue 1000000000 q"

subsection \<open>formattedResource and podInfo\<close>

record formattedResource =
  Quantity :: Quantity
  formatted :: string

record podInfo =
  nodeName :: string
  podNamespace :: string
  podName :: string
  podAge :: string
  podIP :: string
  podStatus :: string
  containerName :: string
  containerCPUUsed :: "formattedResource option"
  containerCPURequested :: string
  containerCPULimit :: string
  containerMemoryUsed :: "formattedResource option"
  containerMemoryRequested :: string
  containerMemoryLimit :: string
  containerImage :: string

subsection \<open>sortEntries\<close>

text \<open>The two comparison closures of \<^verbatim>\<open>sortEntries\<close>, branch by branch.\<close>

definition lessMemory :: "podInfo \<Rightarrow> podInfo \<Rightarrow> bool" where
  "lessMemory a b =
     (if containerMemoryUsed a = None \<and> containerMemoryUsed b = None then False
      else if containerMemoryUsed a \<noteq> None \<and> containerMemoryUsed b = None then False
      else if containerMemoryUsed a = None \<and> containerMemoryUsed b \<noteq> None then True
      else Cmp (Quantity (the (containerMemoryUsed a))) (Quantity (the (containerMemoryUsed b))) < 0)"

definition lessCPU :: "podInfo \<Rightarrow> podInfo \<Rightarrow> bool" where
  "lessCPU a b =
     (if containerCPUUsed a = None \<and> containerCPUUsed b = None then False
      else if containerCPUUsed a \<noteq> None \<and> containerCPUUsed b = None then False
      else if containerCPUUsed a = None \<and> containerCPUUsed b \<noteq> None then True
      else Cmp (Quantity (the (containerCPUUsed a))) (Quantity (the (containerCPUUsed b))) < 0)"

text \<open>
  \<^verbatim>\<open>slices.SortFunc\<close> belongs to golang.org/x/exp, a dependency of the program, and is
  the parameter \<open>srt\<close> of \<open>sortEntries\<close>. A \<^verbatim>\<open>sortByResource\<close> that is neither
  of the two resources falls through the \<^verbatim>\<open>switch\<close> and leaves the rows as they are.
\<close>

type_synonym sort_func = "(podInfo \<Rightarrow> podInfo \<Rightarrow> bool) \<Rightarrow> podInfo list \<Rightarrow> podInfo list"

definition sortEntries :: "sort_func \<Rightarrow> FreeOptions \<Rightarrow> podInfo list \<Rightarrow> podInfo list" where
  "sortEntries srt o' items =
     (if sortByResource o' = memorySortResource then srt lessMemory items
      else if sortByResource o' = cpuSortResource then srt lessCPU items
      else items)"

subsection \<open>podInfoToRow\<close>

definition podInfoToRow :: "FreeOptions \<Rightarrow> podInfo \<Rightarrow> string list" where
  "podInfoToRow o' info =
     (let result =
            (if compactView o'
             then [nodeName info, podNamespace info, podName info, podStatus info,
                   containerName info]
             else [nodeName info, podNamespace info, podName info, podAge info, podIP info,
                   podStatus info, containerName info]);
          result = (if \<not> noMetrics o' \<and> containerCPUUsed info \<noteq> None
                    then result @ [formatted (the (containerCPUUsed info))] else result);
          result = (if \<not> compactView o'
                    then result @ [containerCPURequested info, containerCPULimit info]
                    else result);
          result = (if \<not> noMetrics o' \<and> containerMemoryUsed info \<noteq> None
                    then result @ [formatted (the (containerMemoryUsed info))] else result);
          result = (if \<not> compactView o'
                    then result @ [containerMemoryRequested info, containerCPULimit info]
                    else result);
          result = (if listContainerImage o' then result @ [containerImage info] else result)
      in result)"

subsection \<open>prepareListTableHeader\<close>

text \<open>
  The header of the list view; the function stores it in \<^verbatim>\<open>listTableHeaders\<close>.
  \<^verbatim>\<open>util.DefaultColor\<close>, which rewrites the text of one header cell in place, is not
  among the sources and is the parameter \<open>defaultColor\<close>.
\<close>

definition prepareListTableHeader :: "(string \<Rightarrow> string) \<Rightarrow> FreeOptions \<Rightarrow> string list" where
  "prepareListTableHeader defaultColor o' =
     (let hNode = ''NODE NAME'';
          hNameSpace = ''NAMESPACE'';
          hPod = ''POD NAME'';
          hPodIP = ''POD IP'';
          hPodStatus = ''POD STATUS'';
          hPodAge = ''POD AGE'';
          hContainer = ''CONTAINER'';
          hCPUUse = ''CPU/use'';
          hCPUReq = ''CPU/req'';
          hCPULim = ''CPU/lim'';
          hMEMUse = ''MEM/use'';
          hMEMReq = ''MEM/req'';
          hMEMLim = ''MEM/lim'';
          hImage = ''IMAGE'';
          hPodStatus = (if \<not> nocolor o' then defaultColor hPodStatus else hPodStatus);
          baseHeader = [hNode, hNameSpace];
          podHeader = (if \<not> compactView o' then [hPod, hPodAge, hPodIP, hPodStatus]
                       else [hPod, hPodStatus]);
          containerHeader = [hContainer];
          cpuHeader = [hCPUReq, hCPULim];
          memHeader = [hMEMReq, hMEMLim];
          imageHeader = [hImage];
          (cpuHeader, memHeader) =
            (if \<not> noMetrics o'
             then (if compactView o' then ([hCPUUse], [hMEMUse])
                   else ([hCPUUse] @ cpuHeader, [hMEMUse] @ memHeader))
             else (cpuHeader, memHeader));
          lth = [];
          lth = lth @ baseHeader;
          lth = lth @ podHeader;
          lth = lth @ containerHeader;
          lth = lth @ cpuHeader;
          lth = lth @ memHeader;
          lth = (if listContainerImage o' then lth @ imageHeader else lth)
      in lth)"

subsection \<open>The cluster as the command sees it\<close>

text \<open>
  Nodes, pods and containers carry the fields that \<^verbatim>\<open>showPodsOnNode\<close> reads. The four
  resource fields of a container are the \<^verbatim>\<open>int64\<close> values the code takes from it:
  \<^verbatim>\<open>Requests.Cpu().MilliValue()\<close>, \<^verbatim>\<open>Limits.Cpu().MilliValue()\<close>,
  \<^verbatim>\<open>Requests.Memory().Value()\<close> and \<^verbatim>\<open>Limits.Memory().Value()\<close>. A creation timestamp is
  \<open>None\<close> for Go's zero time.
\<close>

record Container =
  ContainerName :: string
  ContainerImage :: string
  RequestsCpu :: int64
  LimitsCpu :: int64
  RequestsMemory :: int64
  LimitsMemory :: int64

record Pod =
  PodName :: string
  PodNamespace :: string
  PodIP :: string
  PodPhase :: string
  CreationTimestamp :: "int option"
  Containers :: "Container list"

record Node =
  NodeName :: string

type_synonym error = string

record OutputTable =
  Header :: "string list"
  Rows :: "string list"

text \<open>
  What a run returns and what it prints: the error returned to the caller (\<open>None\<close> for
  \<^verbatim>\<open>nil\<close>) and the table handed to \<^verbatim>\<open>Print\<close> (\<open>None\<close> when \<^verbatim>\<open>Print\<close> is never reached).
\<close>

type_synonym outcome = "error option \<times> OutputTable option"

text \<open>
  Modelled from the spec: package \<^verbatim>\<open>util\<close> and \<^verbatim>\<open>showFree\<close> are not among the sources.
  The collaborators answer as the spec's interfaces say: a node listing and a pod
  listing per node that either fail or give a list; an optional usage snapshot mapping
  (pod name, container name) to a CPU and a memory quantity, each absent when unknown
  (\<^verbatim>\<open>util.GetContainerMetrics\<close> is the lookup). \<^verbatim>\<open>util.GetPodStatus\<close>,
  \<^verbatim>\<open>duration.HumanDuration\<close> with the clock, \<^verbatim>\<open>util.JoinTab\<close> and \<^verbatim>\<open>showFree\<close> are taken as
  they come, and so is the library's \<^verbatim>\<open>slices.SortFunc\<close>.
\<close>

type_synonym PodMetricsList = "string \<Rightarrow> string \<Rightarrow> Quantity option \<times> Quantity option"

record Env =
  unitChoice :: unit_choice
  GetPodStatus :: "string \<Rightarrow> bool \<Rightarrow> bool \<Rightarrow> string"
  HumanDuration :: "int \<Rightarrow> string"
  now :: int
  JoinTab :: "string list \<Rightarrow> string"
  GetNodes :: "string list \<Rightarrow> string \<Rightarrow> error + Node list"
  GetPods :: "string \<Rightarrow> error + Pod list"
  metricsPodClient :: "PodMetricsList option"
  showFree :: "Node list \<Rightarrow> outcome"
  sortFunc :: sort_func

subsection \<open>table.AddRow\<close>

definition AddRow :: "Env \<Rightarrow> OutputTable \<Rightarrow> string list \<Rightarrow> OutputTable" where
  "AddRow env t s = t\<lparr>Rows := Rows t @ [JoinTab env s]\<rparr>"

subsection \<open>showPodsOnNode\<close>

text \<open>
  The body of the container loop for one container: \<open>None\<close> is the \<^verbatim>\<open>continue\<close> that
  skips the container, \<open>Some row\<close> the row appended to \<^verbatim>\<open>nodePods\<close>.
\<close>

definition containerRow ::
  "Env \<Rightarrow> FreeOptions \<Rightarrow> PodMetricsList option \<Rightarrow> string \<Rightarrow> Pod \<Rightarrow> string \<Rightarrow> string \<Rightarrow>
   Container \<Rightarrow> podInfo option" where
  "containerRow env o' podMetrics nodeName' pod podStatus' podAge' container =
     (let cCpuRequested = RequestsCpu container;
          cCpuLimit = LimitsCpu container;
          cMemRequested = RequestsMemory container;
          cMemLimit = LimitsMemory container;
          row = \<lparr>nodeName = nodeName', podNamespace = PodNamespace pod, podName = PodName pod,
                 podAge = podAge', podIP = PodIP pod, podStatus = podStatus',
                 containerName = ContainerName container,
                 containerCPUUsed = None, containerCPURequested = [],
                 containerCPULimit = [], containerMemoryUsed = None,
                 containerMemoryRequested = [], containerMemoryLimit = [],
                 containerImage = []\<rparr>;
          row = (if \<not> noMetrics o' \<and> podMetrics \<noteq> None
                 then (let (cpuUsed, memoryUsed) =
                             (the podMetrics) (PodName pod) (ContainerName container);
                           row = (case cpuUsed of None \<Rightarrow> row
                                  | Some q \<Rightarrow> row\<lparr>containerCPUUsed :=
                                      Some \<lparr>Quantity = q,
                                            formatted = toMilliUnitOrDash o' (MilliValue q)\<rparr>\<rparr>);
                           row = (case memoryUsed of None \<Rightarrow> row
                                  | Some q \<Rightarrow> row\<lparr>containerMemoryUsed :=
                                      Some \<lparr>Quantity = q,
                                            formatted = toUnitOrDash (unitChoice env) o' (Value q)\<rparr>\<rparr>)
                       in row)
                 else row)
      in if \<not> listAll o' \<and> cCpuRequested = 0 \<and> cCpuLimit = 0 \<and> cMemRequested = 0 \<and> cMemLimit = 0
         then None
         else (let row = row\<lparr>containerCPURequested := toMilliUnitOrDash o' cCpuRequested,
                              containerCPULimit := toMilliUnitOrDash o' cCpuLimit,
                              containerMemoryRequested := toUnitOrDash (unitChoice env) o' cMemRequested,
                              containerMemoryLimit := toUnitOrDash (unitChoice env) o' cMemLimit\<rparr>;
                   row = (if listContainerImage o'
                          then row\<lparr>containerImage := ContainerImage container\<rparr> else row)
               in Some row))"

text \<open>The container loop of one pod appends the rows of its containers to \<^verbatim>\<open>nodePods\<close>.\<close>

fun containerLoop ::
  "Env \<Rightarrow> FreeOptions \<Rightarrow> PodMetricsList option \<Rightarrow> string \<Rightarrow> Pod \<Rightarrow> string \<Rightarrow> string \<Rightarrow>
   Container list \<Rightarrow> podInfo list \<Rightarrow> podInfo list" where
  "containerLoop env o' podMetrics nodeName' pod podStatus' podAge' [] nodePods = nodePods"
| "containerLoop env o' podMetrics nodeName' pod podStatus' podAge' (container # cs) nodePods =
     (case containerRow env o' podMetrics nodeName' pod podStatus' podAge' container of
        None \<Rightarrow> containerLoop env o' podMetrics nodeName' pod podStatus' podAge' cs nodePods
      | Some row \<Rightarrow>
          containerLoop env o' podMetrics nodeName' pod podStatus' podAge' cs (nodePods @ [row]))"

text \<open>The pod loop of one node.\<close>

fun podLoop ::
  "Env \<Rightarrow> FreeOptions \<Rightarrow> PodMetricsList option \<Rightarrow> string \<Rightarrow> Pod list \<Rightarrow> podInfo list \<Rightarrow>
   podInfo list" where
  "podLoop env o' podMetrics nodeName' [] nodePods = nodePods"
| "podLoop env o' podMetrics nodeName' (pod # pods) nodePods =
     (let podStatus' = GetPodStatus env (PodPhase pod) (nocolor o') (emojiStatus o');
          podAge' = (case CreationTimestamp pod of
                       None \<Rightarrow> ''<unknown>''
                     | Some t \<Rightarrow> HumanDuration env (now env - t))
      in podLoop env o' podMetrics nodeName' pods
           (containerLoop env o' podMetrics nodeName' pod podStatus' podAge' (Containers pod)
              nodePods))"

text \<open>
  The rows of one node as they are handed to the table: built by the pod loop, then
  sorted unless metrics are off.
\<close>

definition nodeRows ::
  "Env \<Rightarrow> FreeOptions \<Rightarrow> PodMetricsList option \<Rightarrow> string \<Rightarrow> Pod list \<Rightarrow> podInfo list" where
  "nodeRows env o' podMetrics nodeName' pods =
     (let nodePods = podLoop env o' podMetrics nodeName' pods []
      in if \<not> noMetrics o' then sortEntries (sortFunc env) o' nodePods else nodePods)"

text \<open>
  The node loop: a failing pod listing returns its error at once; otherwise the rows of
  the node are added to the table and the loop goes on.
\<close>

fun nodeLoop ::
  "Env \<Rightarrow> FreeOptions \<Rightarrow> PodMetricsList option \<Rightarrow> Node list \<Rightarrow> OutputTable \<Rightarrow>
   error + OutputTable" where
  "nodeLoop env o' podMetrics [] t = Inr t"
| "nodeLoop env o' podMetrics (node # nodes) t =
     (case GetPods env (NodeName node) of
        Inl perr \<Rightarrow> Inl perr
      | Inr pods \<Rightarrow>
          nodeLoop env o' podMetrics nodes
            (foldl (\<lambda>t containerOfPod. AddRow env t (podInfoToRow o' containerOfPod)) t
               (nodeRows env o' podMetrics (NodeName node) pods)))"

definition showPodsOnNode :: "Env \<Rightarrow> FreeOptions \<Rightarrow> OutputTable \<Rightarrow> Node list \<Rightarrow> outcome" where
  "showPodsOnNode env o' table nodes =
     (let table = (if \<not> noHeaders o' then table\<lparr>Header := listTableHeaders o'\<rparr> else table);
          podMetrics = (if \<not> noMetrics o' \<and> metricsPodClient env \<noteq> None
                        then metricsPodClient env else None)
      in case nodeLoop env o' podMetrics nodes table of
           Inl perr \<Rightarrow> (Some perr, None)
         | Inr t \<Rightarrow> (None, Some t))"

subsection \<open>Run\<close>

definition Run :: "Env \<Rightarrow> FreeOptions \<Rightarrow> OutputTable \<Rightarrow> string list \<Rightarrow> outcome" where
  "Run env o' table args =
     (case GetNodes env args (labelSelector o') of
        Inl err \<Rightarrow> (None, None)
      | Inr nodes \<Rightarrow>
          if list o'
          then (case showPodsOnNode env o' table nodes of
                  (Some err, printed) \<Rightarrow> (Some err, printed)
                | (None, printed) \<Rightarrow> (None, printed))
          else (case showFree env nodes of
                  (Some err, printed) \<Rightarrow> (Some err, printed)
                | (None, printed) \<Rightarrow> (None, printed)))"

section \<open>slices.SortFunc (golang.org/x/exp)\<close>

text \<open>
  The library sorts the slice in place; the slice is a list and an assignment to an
  element is a list update. Go stops with a panic at an index outside the slice; the
  routines are entered with \<open>0 \<le> a \<le> b \<le> len(data)\<close> and the model has no branch for
  the panic.
\<close>

definition swap :: "'a list \<Rightarrow> nat \<Rightarrow> nat \<Rightarrow> 'a list" where
  "swap data i j = data[i := data ! j, j := data ! i]"

subsection \<open>insertionSortLessFunc\<close>

text \<open>
  \<^verbatim>\<open>for i := a + 1; i < b; i++ { for j := i; j > a && less(data[j], data[j-1]); j-- {
  swap j, j-1 } }\<close>: the inner loop and the outer loop.
\<close>

function insertionInner :: "('a \<Rightarrow> 'a \<Rightarrow> bool) \<Rightarrow> 'a list \<Rightarrow> nat \<Rightarrow> nat \<Rightarrow> 'a list" where
  "insertionInner lessf data a j =
     (if j > a \<and> lessf (data ! j) (data ! (j - 1))
      then insertionInner lessf (swap data j (j - 1)) a (j - 1)
      else data)"
  by pat_completeness auto
termination
  by (relation "measure (\<lambda>(lessf, data, a, j). j)") auto

declare insertionInner.simps [simp del]

function insertionOuter :: "('a \<Rightarrow> 'a \<Rightarrow> bool) \<Rightarrow> 'a list \<Rightarrow> nat \<Rightarrow> nat \<Rightarrow> nat \<Rightarrow> 'a list" where
  "insertionOuter lessf data a i b =
     (if i < b then insertionOuter lessf (insertionInner lessf data a i) a (i + 1) b else data)"
  by pat_completeness auto
termination
  by (relation "measure (\<lambda>(lessf, data, a, i, b). b - i)") auto

declare insertionOuter.simps [simp del]

definition insertionSortLessFunc :: "('a \<Rightarrow> 'a \<Rightarrow> bool) \<Rightarrow> 'a list \<Rightarrow> nat \<Rightarrow> nat \<Rightarrow> 'a list" where
  "insertionSortLessFunc lessf data a b = insertionOuter lessf data a (a + 1) b"

text \<open>Insertion sort over the whole slice, as a sort function.\<close>

definition insertionSort :: "('a \<Rightarrow> 'a \<Rightarrow> bool) \<Rightarrow> 'a list \<Rightarrow> 'a list" where
  "insertionSort lessf data = insertionSortLessFunc lessf data 0 (length data)"

text \<open>
  What one pass of the inner loop does to the sorted prefix, read from its right end:
  the new element moves left past every element it is less than.
\<close>

fun insertDesc :: "('a \<Rightarrow> 'a \<Rightarrow> bool) \<Rightarrow> 'a \<Rightarrow> 'a list \<Rightarrow> 'a list" where
  "insertDesc lessf x [] = [x]"
| "insertDesc lessf x (y # ys) = (if lessf x y then y # insertDesc lessf x ys else x # y # ys)"

subsection \<open>The contract of a sort function\<close>

text \<open>
  The library documents \<^verbatim>\<open>SortFunc\<close> as sorting in ascending order as determined by the
  less function, without a promise of stability: the result is a rearrangement of the
  slice in which no element is less than an earlier one.
\<close>

definition ascending :: "('a \<Rightarrow> 'a \<Rightarrow> bool) \<Rightarrow> 'a list \<Rightarrow> bool" where
  "ascending lessf items = sorted_wrt (\<lambda>a b. \<not> lessf b a) items"

definition sortsBy :: "sort_func \<Rightarrow> (podInfo \<Rightarrow> podInfo \<Rightarrow> bool) \<Rightarrow> bool" where
  "sortsBy srt lessf \<longleftrightarrow>
     (\<forall>items. mset (srt lessf items) = mset items \<and> ascending lessf (srt lessf items))"

text \<open>The usage sample a comparison closure looks at, as a number when present.\<close>

definition memoryKey :: "podInfo \<Rightarrow> int option" where
  "memoryKey a = map_option Quantity (containerMemoryUsed a)"

definition cpuKey :: "podInfo \<Rightarrow> int option" where
  "cpuKey a = map_option Quantity (containerCPUUsed a)"

subsection \<open>The pattern-defeating quicksort behind SortFunc\<close>

text \<open>
  \<^verbatim>\<open>SortFunc(x, less)\<close> with a less function runs \<^verbatim>\<open>pdqsortLessFunc(x, 0, n, bits.Len(n), less)\<close>,
  the library's pattern-defeating quicksort: insertion sort for a slice of at most 12
  elements, otherwise a pivot, a partition and the two sides in turn, with heap sort as
  the fallback. The functions follow the library's file of sorting routines one by one. Indices are
  Go's \<^verbatim>\<open>int\<close>; they are natural numbers here wherever they cannot fall below zero, and
  integers for the two cursors of a partition, where the lower cursor may step below the
  upper one.
\<close>

function siftDownLessFunc ::
  "('a \<Rightarrow> 'a \<Rightarrow> bool) \<Rightarrow> 'a list \<Rightarrow> nat \<Rightarrow> nat \<Rightarrow> nat \<Rightarrow> 'a list" where
  "siftDownLessFunc lessf data root' hi first =
     (let child = 2 * root' + 1
      in if child \<ge> hi then data
         else (let child = (if child + 1 < hi \<and>
                                lessf (data ! (first + child)) (data ! (first + child + 1))
                            then child + 1 else child)
               in if \<not> lessf (data ! (first + root')) (data ! (first + child)) then data
                  else siftDownLessFunc lessf (swap data (first + root') (first + child))
                         child hi first))"
  by pat_completeness auto
termination
  by (relation "measure (\<lambda>(lessf, data, root', hi, first). hi - root')") auto

declare siftDownLessFunc.simps [simp del]

text \<open>The two loops of \<^verbatim>\<open>heapSortLessFunc\<close>, each counting \<open>i\<close> down to 0.\<close>

fun heapBuild :: "('a \<Rightarrow> 'a \<Rightarrow> bool) \<Rightarrow> 'a list \<Rightarrow> nat \<Rightarrow> nat \<Rightarrow> nat \<Rightarrow> 'a list" where
  "heapBuild lessf data 0 hi first = siftDownLessFunc lessf data 0 hi first"
| "heapBuild lessf data (Suc i) hi first =
     heapBuild lessf (siftDownLessFunc lessf data (Suc i) hi first) i hi first"

fun heapPop :: "('a \<Rightarrow> 'a \<Rightarrow> bool) \<Rightarrow> 'a list \<Rightarrow> nat \<Rightarrow> nat \<Rightarrow> 'a list" where
  "heapPop lessf data 0 first = data"
| "heapPop lessf data (Suc i) first =
     heapPop lessf (siftDownLessFunc lessf (swap data first (first + i)) 0 i first) i first"

definition heapSortLessFunc :: "('a \<Rightarrow> 'a \<Rightarrow> bool) \<Rightarrow> 'a list \<Rightarrow> nat \<Rightarrow> nat \<Rightarrow> 'a list" where
  "heapSortLessFunc lessf data a b =
     (let first = a; hi = b - a;
          data = heapBuild lessf data ((hi - 1) div 2) hi first
      in heapPop lessf data hi first)"

text \<open>
  The cursors of a partition: \<^verbatim>\<open>for i <= j && p(data[i]) { i++ }\<close> and
  \<^verbatim>\<open>for i <= j && p(data[j]) { j-- }\<close>.
\<close>

function cursorUp :: "('a \<Rightarrow> bool) \<Rightarrow> 'a list \<Rightarrow> int \<Rightarrow> int \<Rightarrow> int" where
  "cursorUp p data i j = (if i \<le> j \<and> p (data ! nat i) then cursorUp p data (i + 1) j else i)"
  by pat_completeness auto
termination
  by (relation "measure (\<lambda>(p, data, i, j). nat (j + 1 - i))") auto

declare cursorUp.simps [simp del]

function cursorDown :: "('a \<Rightarrow> bool) \<Rightarrow> 'a list \<Rightarrow> int \<Rightarrow> int \<Rightarrow> int" where
  "cursorDown p data i j = (if i \<le> j \<and> p (data ! nat j) then cursorDown p data i (j - 1) else j)"
  by pat_completeness auto
termination
  by (relation "measure (\<lambda>(p, data, i, j). nat (j + 1 - i))") auto

declare cursorDown.simps [simp del]

text \<open>
  The loop of \<^verbatim>\<open>partitionLessFunc\<close>: both cursors run, and while they have not crossed,
  the two elements are swapped. It gives the slice and the final lower cursor.
\<close>

function partitionLoop ::
  "('a \<Rightarrow> 'a \<Rightarrow> bool) \<Rightarrow> 'a list \<Rightarrow> nat \<Rightarrow> int \<Rightarrow> int \<Rightarrow> 'a list \<times> int" where
  "partitionLoop lessf data a i j =
     (let i = cursorUp (\<lambda>x. lessf x (data ! a)) data i j;
          j = cursorDown (\<lambda>x. \<not> lessf x (data ! a)) data i j
      in if i > j then (data, j)
         else partitionLoop lessf (swap data (nat i) (nat j)) a (i + 1) (j - 1))"
  by pat_completeness auto
termination
proof (relation "measure (\<lambda>(lessf, data, a, i, j). nat (j + 1 - i))", goal_cases)
  case 1
  show ?case by simp
next
  case (2 lessf data a i j i' j')
  have up: "i0 \<le> cursorUp p d i0 j0" for p and d :: "'a list" and i0 j0
  proof (induction p d i0 j0 rule: cursorUp.induct)
    case (1 p d i0 j0)
    then show ?case by (subst cursorUp.simps) (auto split: if_splits)
  qed
  have down: "cursorDown p d i0 j0 \<le> j0" for p and d :: "'a list" and i0 j0
  proof (induction p d i0 j0 rule: cursorDown.induct)
    case (1 p d i0 j0)
    then show ?case by (subst cursorDown.simps) (auto split: if_splits)
  qed
  have "i \<le> i'" using 2(1) by (simp add: up)
  moreover have "j' \<le> j" using 2(2) by (simp add: down)
  ultimately show ?case using 2(3) by simp
qed

declare partitionLoop.simps [simp del]

definition partitionLessFunc ::
  "('a \<Rightarrow> 'a \<Rightarrow> bool) \<Rightarrow> 'a list \<Rightarrow> nat \<Rightarrow> nat \<Rightarrow> nat \<Rightarrow> 'a list \<times> nat \<times> bool" where
  "partitionLessFunc lessf data a b pivot =
     (let data = swap data a pivot;
          i = int a + 1; j = int b - 1;
          i = cursorUp (\<lambda>x. lessf x (data ! a)) data i j;
          j = cursorDown (\<lambda>x. \<not> lessf x (data ! a)) data i j
      in if i > j then (swap data (nat j) a, nat j, True)
         else (let data = swap data (nat i) (nat j);
                   (data, j) = partitionLoop lessf data a (i + 1) (j - 1)
               in (swap data (nat j) a, nat j, False)))"

text \<open>\<^verbatim>\<open>partitionEqualLessFunc\<close>: its loop gives the slice and the final upper cursor.\<close>

function partitionEqualLoop ::
  "('a \<Rightarrow> 'a \<Rightarrow> bool) \<Rightarrow> 'a list \<Rightarrow> nat \<Rightarrow> int \<Rightarrow> int \<Rightarrow> 'a list \<times> int" where
  "partitionEqualLoop lessf data a i j =
     (let i = cursorUp (\<lambda>x. \<not> lessf (data ! a) x) data i j;
          j = cursorDown (\<lambda>x. lessf (data ! a) x) data i j
      in if i > j then (data, i)
         else partitionEqualLoop lessf (swap data (nat i) (nat j)) a (i + 1) (j - 1))"
  by pat_completeness auto
termination
proof (relation "measure (\<lambda>(lessf, data, a, i, j). nat (j + 1 - i))", goal_cases)
  case 1
  show ?case by simp
next
  case (2 lessf data a i j i' j')
  have up: "i0 \<le> cursorUp p d i0 j0" for p and d :: "'a list" and i0 j0
  proof (induction p d i0 j0 rule: cursorUp.induct)
    case (1 p d i0 j0)
    then show ?case by (subst cursorUp.simps) (auto split: if_splits)
  qed
  have down: "cursorDown p d i0 j0 \<le> j0" for p and d :: "'a list" and i0 j0
  proof (induction p d i0 j0 rule: cursorDown.induct)
    case (1 p d i0 j0)
    then show ?case by (subst cursorDown.simps) (auto split: if_splits)
  qed
  have "i \<le> i'" using 2(1) by (simp add: up)
  moreover have "j' \<le> j" using 2(2) by (simp add: down)
  ultimately show ?case using 2(3) by simp
qed

declare partitionEqualLoop.simps [simp del]

definition partitionEqualLessFunc ::
  "('a \<Rightarrow> 'a \<Rightarrow> bool) \<Rightarrow> 'a list \<Rightarrow> nat \<Rightarrow> nat \<Rightarrow> nat \<Rightarrow> 'a list \<times> nat" where
  "partitionEqualLessFunc lessf data a b pivot =
     (let data = swap data a pivot;
          (data, i) = partitionEqualLoop lessf data a (int a + 1) (int b - 1)
      in (data, nat i))"

text \<open>\<^verbatim>\<open>partialInsertionSortLessFunc\<close> and its three inner loops.\<close>

function skipSorted :: "('a \<Rightarrow> 'a \<Rightarrow> bool) \<Rightarrow> 'a list \<Rightarrow> nat \<Rightarrow> nat \<Rightarrow> nat" where
  "skipSorted lessf data i b =
     (if i < b \<and> \<not> lessf (data ! i) (data ! (i - 1)) then skipSorted lessf data (i + 1) b else i)"
  by pat_completeness auto
termination
  by (relation "measure (\<lambda>(lessf, data, i, b). b - i)") auto

declare skipSorted.simps [simp del]

function shiftLeft :: "('a \<Rightarrow> 'a \<Rightarrow> bool) \<Rightarrow> 'a list \<Rightarrow> nat \<Rightarrow> 'a list" where
  "shiftLeft lessf data j =
     (if j \<ge> 1 \<and> lessf (data ! j) (data ! (j - 1))
      then shiftLeft lessf (swap data j (j - 1)) (j - 1) else data)"
  by pat_completeness auto
termination
  by (relation "measure (\<lambda>(lessf, data, j). j)") auto

declare shiftLeft.simps [simp del]

function shiftRight :: "('a \<Rightarrow> 'a \<Rightarrow> bool) \<Rightarrow> 'a list \<Rightarrow> nat \<Rightarrow> nat \<Rightarrow> 'a list" where
  "shiftRight lessf data j b =
     (if j < b \<and> lessf (data ! j) (data ! (j - 1))
      then shiftRight lessf (swap data j (j - 1)) (j + 1) b else data)"
  by pat_completeness auto
termination
  by (relation "measure (\<lambda>(lessf, data, j, b). b - j)") auto

declare shiftRight.simps [simp del]

function partialInsertionLoop ::
  "('a \<Rightarrow> 'a \<Rightarrow> bool) \<Rightarrow> 'a list \<Rightarrow> nat \<Rightarrow> nat \<Rightarrow> nat \<Rightarrow> nat \<Rightarrow> 'a list \<times> bool" where
  "partialInsertionLoop lessf data a b i step =
     (if step < 5
      then (let i = skipSorted lessf data i b
            in if i = b then (data, True)
               else if b - a < 50 then (data, False)
               else (let data = swap data i (i - 1);
                         data = (if i - a \<ge> 2 then shiftLeft lessf data (i - 1) else data);
                         data = (if b - i \<ge> 2 then shiftRight lessf data (i + 1) b else data)
                     in partialInsertionLoop lessf data a b i (step + 1)))
      else (data, False))"
  by pat_completeness auto
termination
  by (relation "measure (\<lambda>(lessf, data, a, b, i, step). 5 - step)") auto

declare partialInsertionLoop.simps [simp del]

definition partialInsertionSortLessFunc ::
  "('a \<Rightarrow> 'a \<Rightarrow> bool) \<Rightarrow> 'a list \<Rightarrow> nat \<Rightarrow> nat \<Rightarrow> 'a list \<times> bool" where
  "partialInsertionSortLessFunc lessf data a b = partialInsertionLoop lessf data a b (a + 1) 0"

text \<open>\<^verbatim>\<open>breakPatternsLessFunc\<close> with its xorshift generator and \<^verbatim>\<open>bits.Len\<close>.\<close>

fun bitsLen :: "nat \<Rightarrow> nat" where
  "bitsLen n = (if n = 0 then 0 else Suc (bitsLen (n div 2)))"

declare bitsLen.simps [simp del]

definition xorshiftNext :: "64 word \<Rightarrow> 64 word" where
  "xorshiftNext r =
     (let r = xor r (push_bit 13 r);
          r = xor r (drop_bit 17 r);
          r = xor r (push_bit 5 r)
      in r)"

fun breakPatternsLoop :: "'a list \<Rightarrow> nat \<Rightarrow> nat \<Rightarrow> nat \<Rightarrow> 64 word \<Rightarrow> nat list \<Rightarrow> 'a list" where
  "breakPatternsLoop data a idx len random [] = data"
| "breakPatternsLoop data a idx len random (i # is) =
     (let random = xorshiftNext random;
          other = unat random mod 2 ^ bitsLen len;
          other = (if other \<ge> len then other - len else other)
      in breakPatternsLoop (swap data (idx - 1 + i) (a + other)) a idx len random is)"

definition breakPatternsLessFunc :: "'a list \<Rightarrow> nat \<Rightarrow> nat \<Rightarrow> 'a list" where
  "breakPatternsLessFunc data a b =
     (let len = b - a
      in if len \<ge> 8
         then breakPatternsLoop data a (a + (len div 4) * 2 - 1) len (word_of_nat len) [0, 1, 2]
         else data)"

text \<open>\<^verbatim>\<open>choosePivotLessFunc\<close> with \<^verbatim>\<open>order2\<close>, \<^verbatim>\<open>median\<close> and \<^verbatim>\<open>medianAdjacent\<close>.\<close>

datatype sortedHint = unknownHint | increasingHint | decreasingHint

definition order2LessFunc ::
  "('a \<Rightarrow> 'a \<Rightarrow> bool) \<Rightarrow> 'a list \<Rightarrow> nat \<Rightarrow> nat \<Rightarrow> nat \<Rightarrow> nat \<times> nat \<times> nat" where
  "order2LessFunc lessf data a b swaps =
     (if lessf (data ! b) (data ! a) then (b, a, swaps + 1) else (a, b, swaps))"

definition medianLessFunc ::
  "('a \<Rightarrow> 'a \<Rightarrow> bool) \<Rightarrow> 'a list \<Rightarrow> nat \<Rightarrow> nat \<Rightarrow> nat \<Rightarrow> nat \<Rightarrow> nat \<times> nat" where
  "medianLessFunc lessf data a b c swaps =
     (let (a, b, swaps) = order2LessFunc lessf data a b swaps;
          (b, c, swaps) = order2LessFunc lessf data b c swaps;
          (a, b, swaps) = order2LessFunc lessf data a b swaps
      in (b, swaps))"

definition medianAdjacentLessFunc ::
  "('a \<Rightarrow> 'a \<Rightarrow> bool) \<Rightarrow> 'a list \<Rightarrow> nat \<Rightarrow> nat \<Rightarrow> nat \<times> nat" where
  "medianAdjacentLessFunc lessf data a swaps = medianLessFunc lessf data (a - 1) a (a + 1) swaps"

definition choosePivotLessFunc ::
  "('a \<Rightarrow> 'a \<Rightarrow> bool) \<Rightarrow> 'a list \<Rightarrow> nat \<Rightarrow> nat \<Rightarrow> nat \<times> sortedHint" where
  "choosePivotLessFunc lessf data a b =
     (let l = b - a;
          swaps = 0;
          i = a + l div 4 * 1;
          j = a + l div 4 * 2;
          k = a + l div 4 * 3;
          (j, swaps) =
            (if l \<ge> 8
             then (let (i, j, k, swaps) =
                         (if l \<ge> 50
                          then (let (i, swaps) = medianAdjacentLessFunc lessf data i swaps;
                                    (j, swaps) = medianAdjacentLessFunc lessf data j swaps;
                                    (k, swaps) = medianAdjacentLessFunc lessf data k swaps
                                in (i, j, k, swaps))
                          else (i, j, k, swaps))
                   in medianLessFunc lessf data i j k swaps)
             else (j, swaps))
      in if swaps = 0 then (j, increasingHint)
         else if swaps = 12 then (j, decreasingHint)
         else (j, unknownHint))"

function reverseRangeLoop :: "'a list \<Rightarrow> nat \<Rightarrow> nat \<Rightarrow> 'a list" where
  "reverseRangeLoop data i j =
     (if i < j then reverseRangeLoop (swap data i j) (i + 1) (j - 1) else data)"
  by pat_completeness auto
termination
  by (relation "measure (\<lambda>(data, i, j). j - i)") auto

declare reverseRangeLoop.simps [simp del]

definition reverseRangeLessFunc :: "'a list \<Rightarrow> nat \<Rightarrow> nat \<Rightarrow> 'a list" where
  "reverseRangeLessFunc data a b = reverseRangeLoop data a (b - 1)"

text \<open>
  \<^verbatim>\<open>pdqsortLessFunc\<close>: one turn of its loop per call. \<^verbatim>\<open>wasBalanced\<close> and
  \<^verbatim>\<open>wasPartitioned\<close> are the loop's two flags, both true when the function is entered.
\<close>

function pdqsortLessFunc ::
  "('a \<Rightarrow> 'a \<Rightarrow> bool) \<Rightarrow> 'a list \<Rightarrow> nat \<Rightarrow> nat \<Rightarrow> nat \<Rightarrow> bool \<Rightarrow> bool \<Rightarrow> 'a list" where
  "pdqsortLessFunc lessf data a b limit wasBalanced wasPartitioned =
     (let len = b - a
      in if len \<le> 12 then insertionSortLessFunc lessf data a b
         else if limit = 0 then heapSortLessFunc lessf data a b
         else (let (data, limit) =
                     (if \<not> wasBalanced then (breakPatternsLessFunc data a b, limit - 1)
                      else (data, limit));
                   (pivot, hint) = choosePivotLessFunc lessf data a b;
                   (data, pivot, hint) =
                     (if hint = decreasingHint
                      then (reverseRangeLessFunc data a b, (b - 1) - (pivot - a), increasingHint)
                      else (data, pivot, hint));
                   (data, isSorted) =
                     (if wasBalanced \<and> wasPartitioned \<and> hint = increasingHint
                      then partialInsertionSortLessFunc lessf data a b
                      else (data, False))
               in if isSorted then data
                  else if a > 0 \<and> \<not> lessf (data ! (a - 1)) (data ! pivot)
                  then (let (data, mid) = partitionEqualLessFunc lessf data a b pivot
                        in pdqsortLessFunc lessf data mid b limit wasBalanced wasPartitioned)
                  else (let (data, mid, alreadyPartitioned) =
                              partitionLessFunc lessf data a b pivot;
                            leftLen = mid - a;
                            rightLen = b - mid;
                            balanceThreshold = len div 8
                        in if leftLen < rightLen
                           then pdqsortLessFunc lessf
                                  (pdqsortLessFunc lessf data a mid limit True True)
                                  (mid + 1) b limit (leftLen \<ge> balanceThreshold)
                                  alreadyPartitioned
                           else pdqsortLessFunc lessf
                                  (pdqsortLessFunc lessf data (mid + 1) b limit True True)
                                  a mid limit (rightLen \<ge> balanceThreshold)
                                  alreadyPartitioned)))"
  by pat_completeness auto
termination
proof -
  have up: "i0 \<le> cursorUp p d i0 j0" for p and d :: "'a list" and i0 j0
  proof (induction p d i0 j0 rule: cursorUp.induct)
    case (1 p d i0 j0)
    then show ?case by (subst cursorUp.simps) (auto split: if_splits)
  qed
  have down: "cursorDown p d i0 j0 \<le> j0 \<and> (cursorDown p d i0 j0 = j0 \<or> i0 - 1 \<le> cursorDown p d i0 j0)"
    for p and d :: "'a list" and i0 j0
  proof (induction p d i0 j0 rule: cursorDown.induct)
    case (1 p d i0 j0)
    show ?case
    proof (cases "i0 \<le> j0 \<and> p (d ! nat j0)")
      case True
      with 1 have "cursorDown p d i0 (j0 - 1) \<le> j0 - 1 \<and>
          (cursorDown p d i0 (j0 - 1) = j0 - 1 \<or> i0 - 1 \<le> cursorDown p d i0 (j0 - 1))"
        by simp
      moreover have "cursorDown p d i0 j0 = cursorDown p d i0 (j0 - 1)"
        using True by (subst cursorDown.simps) simp
      ultimately show ?thesis using True by auto
    next
      case False
      then have "cursorDown p d i0 j0 = j0" by (subst cursorDown.simps) auto
      then show ?thesis by simp
    qed
  qed
  have loop: "snd (partitionLoop lessf d a i0 j0) \<le> j0 \<and>
      (snd (partitionLoop lessf d a i0 j0) = j0 \<or> i0 - 1 \<le> snd (partitionLoop lessf d a i0 j0))"
    for lessf and d :: "'a list" and a i0 j0
  proof (induction lessf d a i0 j0 rule: partitionLoop.induct)
    case (1 lessf d a i0 j0)
    define i1 where "i1 = cursorUp (\<lambda>x. lessf x (d ! a)) d i0 j0"
    define j1 where "j1 = cursorDown (\<lambda>x. \<not> lessf x (d ! a)) d i1 j0"
    have i1: "i0 \<le> i1" unfolding i1_def by (rule up)
    have j1: "j1 \<le> j0 \<and> (j1 = j0 \<or> i1 - 1 \<le> j1)" unfolding j1_def by (rule down)
    show ?case
    proof (cases "i1 > j1")
      case True
      then have "partitionLoop lessf d a i0 j0 = (d, j1)"
        by (subst partitionLoop.simps) (simp add: i1_def j1_def Let_def)
      then show ?thesis using i1 j1 by auto
    next
      case False
      then have eq: "partitionLoop lessf d a i0 j0
          = partitionLoop lessf (swap d (nat i1) (nat j1)) a (i1 + 1) (j1 - 1)"
        by (subst partitionLoop.simps) (simp add: i1_def j1_def Let_def)
      have "snd (partitionLoop lessf (swap d (nat i1) (nat j1)) a (i1 + 1) (j1 - 1)) \<le> j1 - 1 \<and>
        (snd (partitionLoop lessf (swap d (nat i1) (nat j1)) a (i1 + 1) (j1 - 1)) = j1 - 1 \<or>
         i1 + 1 - 1 \<le> snd (partitionLoop lessf (swap d (nat i1) (nat j1)) a (i1 + 1) (j1 - 1)))"
        using False by (intro "1.IH"[OF i1_def j1_def]) simp
      then show ?thesis using eq i1 j1 False by auto
    qed
  qed
  have part: "a \<le> fst (snd (partitionLessFunc lessf d a b pivot)) \<and>
      fst (snd (partitionLessFunc lessf d a b pivot)) < b"
    if "a < b" for lessf and d :: "'a list" and a b pivot
  proof -
    define d1 where "d1 = swap d a pivot"
    define i1 where "i1 = cursorUp (\<lambda>x. lessf x (d1 ! a)) d1 (int a + 1) (int b - 1)"
    define j1 where "j1 = cursorDown (\<lambda>x. \<not> lessf x (d1 ! a)) d1 i1 (int b - 1)"
    have i1: "int a + 1 \<le> i1" unfolding i1_def by (rule up)
    have j1: "j1 \<le> int b - 1 \<and> (j1 = int b - 1 \<or> i1 - 1 \<le> j1)" unfolding j1_def by (rule down)
    show ?thesis
    proof (cases "i1 > j1")
      case True
      then have "fst (snd (partitionLessFunc lessf d a b pivot)) = nat j1"
        by (simp add: partitionLessFunc_def Let_def d1_def i1_def j1_def)
      then show ?thesis using i1 j1 that by auto
    next
      case False
      define r where "r = snd (partitionLoop lessf (swap d1 (nat i1) (nat j1)) a (i1 + 1) (j1 - 1))"
      have "fst (snd (partitionLessFunc lessf d a b pivot)) = nat r"
        using False
        by (simp add: partitionLessFunc_def Let_def d1_def i1_def j1_def r_def split_def)
      moreover have "r \<le> j1 - 1 \<and> (r = j1 - 1 \<or> i1 + 1 - 1 \<le> r)"
        unfolding r_def by (rule loop)
      ultimately show ?thesis using i1 j1 that False by auto
    qed
  qed
  have eqloop: "i0 \<le> snd (partitionEqualLoop lessf d a i0 j0)"
    for lessf and d :: "'a list" and a i0 j0
  proof (induction lessf d a i0 j0 rule: partitionEqualLoop.induct)
    case (1 lessf d a i0 j0)
    define i1 where "i1 = cursorUp (\<lambda>x. \<not> lessf (d ! a) x) d i0 j0"
    define j1 where "j1 = cursorDown (\<lambda>x. lessf (d ! a) x) d i1 j0"
    have i1: "i0 \<le> i1" unfolding i1_def by (rule up)
    show ?case
    proof (cases "i1 > j1")
      case True
      then have "partitionEqualLoop lessf d a i0 j0 = (d, i1)"
        by (subst partitionEqualLoop.simps) (simp add: i1_def j1_def Let_def)
      then show ?thesis using i1 by simp
    next
      case False
      then have eq: "partitionEqualLoop lessf d a i0 j0
          = partitionEqualLoop lessf (swap d (nat i1) (nat j1)) a (i1 + 1) (j1 - 1)"
        by (subst partitionEqualLoop.simps) (simp add: i1_def j1_def Let_def)
      have "i1 + 1 \<le> snd (partitionEqualLoop lessf (swap d (nat i1) (nat j1)) a (i1 + 1) (j1 - 1))"
        using False by (intro "1.IH"[OF i1_def j1_def]) simp
      then show ?thesis using eq i1 by simp
    qed
  qed
  have parteq: "a < snd (partitionEqualLessFunc lessf d a b pivot)"
    for lessf and d :: "'a list" and a b pivot
    using eqloop[of "int a + 1" lessf "swap d a pivot" a "int b - 1"]
    by (simp add: partitionEqualLessFunc_def Let_def split_def)
  show ?thesis
  proof (relation "measure (\<lambda>(lessf, data, a, b, limit, wasBalanced, wasPartitioned). b - a)",
      goal_cases)
    case 1
    show ?case by simp
  next
    case (2 lessf data a b limit wasBalanced wasPartitioned x xa xb y xaa xab ya xac xad yaa xae
        yab xaf xag yac xc xd yad)
    have "a < yad" using parteq[of a lessf xag b xae] 2 by (metis snd_conv)
    moreover from 2 have "\<not> b - a \<le> 12" by blast
    ultimately show ?case by (simp; arith)
  next
    case (3 lessf data a b limit wasBalanced wasPartitioned x xa xb y xaa xab ya xac xad yaa xae
        yab xaf xag yac xah xai yad xaj yae xak xal xam)
    from 3 have "xaj - a < b - xaj" and "\<not> b - a \<le> 12" by blast+
    then show ?case by (simp; arith)
  next
    case (4 lessf data a b limit wasBalanced wasPartitioned x xa xb y xaa xab ya xac xad yaa xae
        yab xaf xag yac xah xai yad xaj yae xak xal xam)
    have "a \<le> xaj \<and> xaj < b"
      using part[of a b lessf xag xae] 4 by (metis fst_conv snd_conv not_le_imp_less diff_is_0_eq zero_le)
    moreover from 4 have "\<not> b - a \<le> 12" by blast
    ultimately show ?case by (simp; arith)
  next
    case (5 lessf data a b limit wasBalanced wasPartitioned x xa xb y xaa xab ya xac xad yaa xae
        yab xaf xag yac xah xai yad xaj yae xak xal xam)
    from 5 have "\<not> xaj - a < b - xaj" and "\<not> b - a \<le> 12" by blast+
    then show ?case by (simp; arith)
  next
    case (6 lessf data a b limit wasBalanced wasPartitioned x xa xb y xaa xab ya xac xad yaa xae
        yab xaf xag yac xah xai yad xaj yae xak xal xam)
    have "a \<le> xaj \<and> xaj < b"
      using part[of a b lessf xag xae] 6 by (metis fst_conv snd_conv not_le_imp_less diff_is_0_eq zero_le)
    then show ?case by (simp; arith)
  qed
qed

declare pdqsortLessFunc.simps [simp del]

definition SortFunc :: "('a \<Rightarrow> 'a \<Rightarrow> bool) \<Rightarrow> 'a list \<Rightarrow> 'a list" where
  "SortFunc lessf x = (let n = length x in pdqsortLessFunc lessf x 0 n (bitsLen n) True True)"

section \<open>Node rollup\<close>

text \<open>
  Modelled from the spec: \<^verbatim>\<open>showFree\<close> and the percentage helper of package \<^verbatim>\<open>util\<close> are
  not among the sources. The spec's contract is
  \<^verbatim>\<open>rollup(node: Capacity, pods: sequence of (ResourceSpec, optional UsageSample))\<close>:
  requests and limits are summed over all containers, usage is the node's own sample
  and is not summed from the containers, and a percentage is the integer
  \<open>100 * x / capacity\<close> rounded toward zero when the capacity is positive and absent
  otherwise, the use percentage only when the node has a usage sample.
\<close>

record Capacity =
  allocatableCPU :: int
  allocatableMemory :: int

record UsageSample =
  usageCPU :: int
  usageMemory :: int

record ResourceSpec =
  requestCPU :: int
  limitCPU :: int
  requestMemory :: int
  limitMemory :: int

record NodeRollup =
  cpuUse :: "int option"
  cpuReq :: int
  cpuLim :: int
  cpuAlloc :: int
  cpuUseP :: "int option"
  cpuReqP :: "int option"
  cpuLimP :: "int option"
  memUse :: "int option"
  memReq :: int
  memLim :: int
  memAlloc :: int
  memUseP :: "int option"
  memReqP :: "int option"
  memLimP :: "int option"

definition percentage :: "int \<Rightarrow> int \<Rightarrow> int option" where
  "percentage x capacity = (if capacity > 0 then Some ((100 * x) sdiv capacity) else None)"

definition rollup ::
  "Capacity \<Rightarrow> UsageSample option \<Rightarrow> (ResourceSpec \<times> UsageSample option) list \<Rightarrow> NodeRollup" where
  "rollup node usage pods =
     (let specs = map fst pods;
          reqC = sum_list (map requestCPU specs);
          limC = sum_list (map limitCPU specs);
          reqM = sum_list (map requestMemory specs);
          limM = sum_list (map limitMemory specs)
      in \<lparr>cpuUse = map_option usageCPU usage,
          cpuReq = reqC, cpuLim = limC, cpuAlloc = allocatableCPU node,
          cpuUseP = (case usage of None \<Rightarrow> None
                     | Some u \<Rightarrow> percentage (usageCPU u) (allocatableCPU node)),
          cpuReqP = percentage reqC (allocatableCPU node),
          cpuLimP = percentage limC (allocatableCPU node),
          memUse = map_option usageMemory usage,
          memReq = reqM, memLim = limM, memAlloc = allocatableMemory node,
          memUseP = (case usage of None \<Rightarrow> None
                     | Some u \<Rightarrow> percentage (usageMemory u) (allocatableMemory node)),
          memReqP = percentage reqM (allocatableMemory node),
          memLimP = percentage limM (allocatableMemory node)\<rparr>)"

section \<open>A small cluster to run the definitions on\<close>

text \<open>The options as \<^verbatim>\<open>NewFreeOptions\<close> sets them.\<close>

definition NewFreeOptions :: FreeOptions where
  "NewFreeOptions =
     \<lparr>noHeaders = False, noMetrics = False, compactView = True,
      bytes = False, kByte = False, mByte = True, gByte = False,
      withoutUnit = False, binPrefix = False,
      nocolor = False, warnThreshold = 60, critThreshold = 90,
      list = False, listContainerImage = False, listAll = False,
      sortByResource = memorySortResource, listTableHeaders = [],
      emojiStatus = False, labelSelector = []\<rparr>"

definition firstFlag :: unit_choice where
  "firstFlag b k m g =
     (if b then UnitBytes else if k then UnitKilo else if m then UnitMega
      else if g then UnitGiga else UnitKilo)"

definition web :: Container where
  "web = \<lparr>ContainerName = ''web'', ContainerImage = ''nginx'',
          RequestsCpu = 100, LimitsCpu = 500,
          RequestsMemory = 64000000, LimitsMemory = 128000000\<rparr>"

definition sidecar :: Container where
  "sidecar = \<lparr>ContainerName = ''sidecar'', ContainerImage = ''envoy'',
              RequestsCpu = 0, LimitsCpu = 0, RequestsMemory = 0, LimitsMemory = 0\<rparr>"

definition pod1 :: Pod where
  "pod1 = \<lparr>PodName = ''pod1'', PodNamespace = ''default'', PodIP = ''10.0.0.1'',
           PodPhase = ''Running'', CreationTimestamp = None, Containers = [web, sidecar]\<rparr>"

definition node1 :: Node where
  "node1 = \<lparr>NodeName = ''node1''\<rparr>"

definition node2 :: Node where
  "node2 = \<lparr>NodeName = ''node2''\<rparr>"

text \<open>Two usage snapshots: every container idle at exactly zero, and every container busy.\<close>

definition idleMetrics :: PodMetricsList where
  "idleMetrics p c = (Some 0, Some 0)"

definition busyMetrics :: PodMetricsList where
  "busyMetrics p c = (Some 58000000, Some 2144333000000000)"

definition testEnv :: Env where
  "testEnv =
     \<lparr>unitChoice = firstFlag,
      GetPodStatus = (\<lambda>phase nc emoji. phase),
      HumanDuration = (\<lambda>d. ''1d''),
      now = 0,
      JoinTab = (\<lambda>cells. concat (map (\<lambda>c. c @ ''|'') cells)),
      GetNodes = (\<lambda>args sel. Inr [node1, node2]),
      GetPods = (\<lambda>n. Inr [pod1]),
      metricsPodClient = None,
      showFree = (\<lambda>nodes. (None, Some \<lparr>Header = [], Rows = []\<rparr>)),
      sortFunc = SortFunc\<rparr>"

definition emptyTable :: OutputTable where
  "emptyTable = \<lparr>Header = [], Rows = []\<rparr>"

text \<open>
  Rows that differ in their container name and their memory sample only: \<open>usageRow\<close>
  for a row with a sample, \<open>bareRow\<close> for a row without one.
\<close>

definition bareRow :: "string \<Rightarrow> podInfo" where
  "bareRow name =
     \<lparr>nodeName = ''node1'', podNamespace = ''default'', podName = ''pod1'', podAge = [],
      podIP = [], podStatus = ''Running'', containerName = name,
      containerCPUUsed = None, containerCPURequested = [], containerCPULimit = [],
      containerMemoryUsed = None, containerMemoryRequested = [],
      containerMemoryLimit = [], containerImage = []\<rparr>"

definition usageRow :: "string \<Rightarrow> Quantity \<Rightarrow> podInfo" where
  "usageRow name q =
     (bareRow name)\<lparr>containerMemoryUsed := Some \<lparr>Quantity = q, formatted = ''x''\<rparr>\<rparr>"

text \<open>
  Thirteen rows, the twelfth with a larger memory sample than the others, which are all
  equal; and thirteen rows of which only the twelfth has a sample.
\<close>

definition equalRows :: "podInfo list" where
  "equalRows =
     [usageRow ''c00'' 100, usageRow ''c01'' 100, usageRow ''c02'' 100, usageRow ''c03'' 100,
      usageRow ''c04'' 100, usageRow ''c05'' 100, usageRow ''c06'' 100, usageRow ''c07'' 100,
      usageRow ''c08'' 100, usageRow ''c09'' 100, usageRow ''c10'' 100, usageRow ''c11'' 200,
      usageRow ''c12'' 100]"

definition missingRows :: "podInfo list" where
  "missingRows =
     [bareRow ''c00'', bareRow ''c01'', bareRow ''c02'', bareRow ''c03'',
      bareRow ''c04'', bareRow ''c05'', bareRow ''c06'', bareRow ''c07'',
      bareRow ''c08'', bareRow ''c09'', bareRow ''c10'', usageRow ''c11'' 200,
      bareRow ''c12'']"

section \<open>Properties of the quantity formatter\<close>

subsection \<open>A decimal rendering is never the dash\<close>

lemma digitChar_not_dash: "k < 10 \<Longrightarrow> digitChar k \<noteq> CHR ''-''"
proof
  assume "digitChar k = CHR ''-''"
  then have "(of_char (digitChar k) :: nat) = of_char (CHR ''-'')" by simp
  then have "(48 + k) mod 256 = 45" by (simp add: digitChar_def)
  moreover assume "k < 10"
  ultimately show False by simp
qed

lemma digits_ne: "digits n \<noteq> []"
  by (subst digits.simps) simp

lemma digits_no_dash: "CHR ''-'' \<notin> set (digits n)"
proof (induction n rule: digits.induct)
  case (1 n)
  show ?case
  proof (cases "n < 10")
    case True
    then show ?thesis using digitChar_not_dash[of n] by (subst digits.simps) auto
  next
    case False
    then show ?thesis
      using 1 digitChar_not_dash[of "n mod 10"] by (subst digits.simps) auto
  qed
qed

lemma digits_app_not_dash: "digits n @ s \<noteq> ''-''"
proof
  assume a: "digits n @ s = ''-''"
  obtain c cs where d: "digits n = c # cs"
    using digits_ne[of n] by (cases "digits n") auto
  with a have "c = CHR ''-''" by simp
  with d have "CHR ''-'' \<in> set (digits n)" by simp
  then show False using digits_no_dash by blast
qed

lemma formatInt_not_dash: "formatInt v @ s \<noteq> ''-''"
proof (cases "v < 0")
  case True
  then show ?thesis using digits_ne[of "nat (- v)"] by (simp add: formatInt_def)
next
  case False
  then show ?thesis using digits_app_not_dash by (simp add: formatInt_def)
qed

lemma toUnit_not_dash: "toUnit pick o' i \<noteq> ''-''"
  by (simp add: toUnit_def Let_def split_def FormatInt_def formatInt_not_dash)

lemma milliQuantityString_not_dash: "milliQuantityString i \<noteq> ''-''"
  by (simp add: milliQuantityString_def Let_def split_def formatInt_not_dash)

lemma FormatInt_not_dash: "FormatInt i \<noteq> ''-''"
  using formatInt_not_dash[of "sint i" "[]"] by (simp add: FormatInt_def)

text \<open>
  C9. For every \<^verbatim>\<open>int64\<close> amount, \<open>toUnitOrDash\<close> and \<open>toMilliUnitOrDash\<close> return the
  single character \<open>-\<close> exactly when the amount is 0; for every other amount they return
  the formatted quantity (\<open>toUnit\<close>; the raw number or the milli-quantity text), and
  that text is never \<open>-\<close>.
\<close>

theorem formatOrDash_dash_iff_zero:
  "(toUnitOrDash pick o' i = ''-'' \<longleftrightarrow> i = 0) \<and>
   (toMilliUnitOrDash o' i = ''-'' \<longleftrightarrow> i = 0) \<and>
   toUnitOrDash pick o' i = (if i = 0 then ''-'' else toUnit pick o' i) \<and>
   toMilliUnitOrDash o' i =
     (if i = 0 then ''-'' else if withoutUnit o' then FormatInt i else milliQuantityString i) \<and>
   toUnit pick o' i \<noteq> ''-'' \<and> FormatInt i \<noteq> ''-'' \<and> milliQuantityString i \<noteq> ''-''"
  by (simp add: toUnitOrDash_def toMilliUnitOrDash_def toUnit_not_dash
      milliQuantityString_not_dash FormatInt_not_dash)

subsection \<open>The severity bands\<close>

text \<open>
  C8. With \<open>warnThreshold \<le> critThreshold\<close>, the percentage is painted green exactly
  when it is below the warn threshold, yellow exactly when it is at least the warn
  threshold and below the crit threshold, and red exactly when it is at least the crit
  threshold; with \<open>nocolor\<close> the result is the bare percentage text.
\<close>

theorem toColorPercent_bands:
  assumes "warnThreshold o' \<le>s critThreshold o'"
  shows "(colorBand o' i = Green \<longleftrightarrow> i <s warnThreshold o') \<and>
         (colorBand o' i = Yellow \<longleftrightarrow> warnThreshold o' \<le>s i \<and> i <s critThreshold o') \<and>
         (colorBand o' i = Red \<longleftrightarrow> critThreshold o' \<le>s i) \<and>
         toColorPercent paint o' i =
           (if nocolor o' then FormatInt i @ ''%''
            else paint (colorBand o' i) (FormatInt i @ ''%''))"
  using assms by (auto simp: colorBand_def toColorPercent_def word_sless_alt word_sle_eq)

theorem toColorPercent_bands_witness:
  "warnThreshold NewFreeOptions \<le>s critThreshold NewFreeOptions \<and>
   colorBand NewFreeOptions 59 = Green \<and>
   colorBand NewFreeOptions 60 = Yellow \<and>
   colorBand NewFreeOptions 89 = Yellow \<and>
   colorBand NewFreeOptions 90 = Red \<and>
   toColorPercent (\<lambda>c p. p) (NewFreeOptions\<lparr>nocolor := True\<rparr>) 75 = ''75%''"
proof -
  have h: "warnThreshold NewFreeOptions \<le>s critThreshold NewFreeOptions"
    by (simp add: NewFreeOptions_def)
  have b: "colorBand NewFreeOptions 59 = Green" "colorBand NewFreeOptions 60 = Yellow"
    "colorBand NewFreeOptions 89 = Yellow" "colorBand NewFreeOptions 90 = Red"
    using toColorPercent_bands[OF h, of 59] toColorPercent_bands[OF h, of 60]
      toColorPercent_bands[OF h, of 89] toColorPercent_bands[OF h, of 90]
    by (simp_all add: NewFreeOptions_def)
  have "toColorPercent (\<lambda>c p. p) (NewFreeOptions\<lparr>nocolor := True\<rparr>) 75 = ''75%''"
    by code_simp
  with h b show ?thesis by simp
qed

section \<open>Properties of the container rows\<close>

subsection \<open>The skip rule\<close>

lemma containerLoop_step:
  "containerLoop env o' pm n pod st age cs nodePods =
     nodePods @ List.map_filter (containerRow env o' pm n pod st age) cs"
  by (induction cs arbitrary: nodePods) (auto simp: List.map_filter_simps split: option.splits)

text \<open>
  C6. With \<open>listAll\<close> off, the container loop skips a container if and only if its four
  resource fields are all 0, whatever the usage snapshot holds for it (the snapshot
  \<open>podMetrics\<close> is arbitrary): the loop appends nothing for such a container and
  exactly one row for any other.
\<close>

theorem skip_rule:
  assumes "\<not> listAll o'"
  shows "(containerRow env o' podMetrics n pod st age c = None \<longleftrightarrow>
            RequestsCpu c = 0 \<and> LimitsCpu c = 0 \<and> RequestsMemory c = 0 \<and> LimitsMemory c = 0) \<and>
         length (containerLoop env o' podMetrics n pod st age [c] nodePods) =
           (if RequestsCpu c = 0 \<and> LimitsCpu c = 0 \<and> RequestsMemory c = 0 \<and> LimitsMemory c = 0
            then length nodePods else length nodePods + 1)"
proof -
  have iff: "containerRow env o' podMetrics n pod st age c = None \<longleftrightarrow>
      RequestsCpu c = 0 \<and> LimitsCpu c = 0 \<and> RequestsMemory c = 0 \<and> LimitsMemory c = 0"
    using assms by (simp add: containerRow_def Let_def split: prod.splits option.splits)
  then show ?thesis
    by (cases "containerRow env o' podMetrics n pod st age c") auto
qed

theorem skip_rule_witness:
  "\<not> listAll NewFreeOptions \<and>
   containerRow testEnv NewFreeOptions (Some busyMetrics) ''node1'' pod1 ''Running''
     ''<unknown>'' sidecar = None \<and>
   containerRow testEnv NewFreeOptions (Some busyMetrics) ''node1'' pod1 ''Running''
     ''<unknown>'' web \<noteq> None"
proof -
  have h: "\<not> listAll NewFreeOptions" by (simp add: NewFreeOptions_def)
  show ?thesis
    using h skip_rule[OF h, of testEnv "Some busyMetrics" "''node1''" pod1 "''Running''"
        "''<unknown>''" sidecar "[]"]
      skip_rule[OF h, of testEnv "Some busyMetrics" "''node1''" pod1 "''Running''"
        "''<unknown>''" web "[]"]
    by (simp add: sidecar_def web_def)
qed

subsection \<open>The cells of a row\<close>

lemma last_resource_cell:
  assumes "\<not> compactView o'" and "\<not> noMetrics o'"
    and "containerCPUUsed row \<noteq> None" and "containerMemoryUsed row \<noteq> None"
  shows "prepareListTableHeader defaultColor o' ! 12 = ''MEM/lim''"
    and "podInfoToRow o' row ! 12 = containerCPULimit row"
  using assms by (simp_all add: prepareListTableHeader_def podInfoToRow_def Let_def nth_append)

text \<open>
  C5. In the full (non-compact) view the last resource cell of a row, under the header
  MEM/lim, is filled from \<open>containerCPULimit\<close>: for the container \<open>web\<close> with a CPU
  limit of 500m and a memory limit of 128M the cell under MEM/lim reads \<open>500m\<close>, and
  the memory limit, though computed into \<open>containerMemoryLimit\<close>, is not shown.
\<close>

theorem mem_limit_cell_shows_cpu_limit:
  "map_option (\<lambda>row. zip (prepareListTableHeader (\<lambda>h. h) (NewFreeOptions\<lparr>compactView := False\<rparr>))
                          (podInfoToRow (NewFreeOptions\<lparr>compactView := False\<rparr>) row))
     (containerRow testEnv (NewFreeOptions\<lparr>compactView := False\<rparr>) (Some busyMetrics)
        ''node1'' pod1 ''Running'' ''<unknown>'' web)
   = Some [(''NODE NAME'', ''node1''), (''NAMESPACE'', ''default''), (''POD NAME'', ''pod1''),
           (''POD AGE'', ''<unknown>''), (''POD IP'', ''10.0.0.1''), (''POD STATUS'', ''Running''),
           (''CONTAINER'', ''web''), (''CPU/use'', ''58m''), (''CPU/req'', ''100m''),
           (''CPU/lim'', ''500m''), (''MEM/use'', ''2M''), (''MEM/req'', ''64M''),
           (''MEM/lim'', ''500m'')] \<and>
   map_option containerMemoryLimit
     (containerRow testEnv (NewFreeOptions\<lparr>compactView := False\<rparr>) (Some busyMetrics)
        ''node1'' pod1 ''Running'' ''<unknown>'' web) = Some ''128M''"
  by code_simp

lemma absent_samples_emit_no_cell:
  assumes "\<not> noMetrics o'"
    and "containerCPUUsed row = None" and "containerMemoryUsed row = None"
  shows "length (prepareListTableHeader defaultColor o') = length (podInfoToRow o' row) + 2"
  using assms by (simp add: prepareListTableHeader_def podInfoToRow_def Let_def)

text \<open>
  C4, as the claim states it: a usage sample that is present and measures exactly 0 is
  rendered as the dash in both the CPU and the memory cell.
\<close>

theorem zero_usage_counterexample:
  "map_option (podInfoToRow NewFreeOptions)
     (containerRow testEnv NewFreeOptions (Some idleMetrics) ''node1'' pod1 ''Running''
        ''<unknown>'' web)
   = Some [''node1'', ''default'', ''pod1'', ''Running'', ''web'', ''-'', ''-'']"
  by code_simp

lemma containerRow_used:
  assumes "\<not> noMetrics o'"
    and "containerRow env o' (Some m) n pod st age c = Some row"
    and "m (PodName pod) (ContainerName c) = (cpu, mem)"
  shows "containerCPUUsed row =
           map_option (\<lambda>q. \<lparr>Quantity = q, formatted = toMilliUnitOrDash o' (MilliValue q)\<rparr>) cpu"
    and "containerMemoryUsed row =
           map_option (\<lambda>q. \<lparr>Quantity = q, formatted = toUnitOrDash (unitChoice env) o' (Value q)\<rparr>) mem"
  using assms
  by (auto simp: containerRow_def Let_def split: if_splits option.splits)

text \<open>
  C4, amended. With metrics on, a usage sample that is present gives its cell: the CPU
  cell follows the seven (five in the compact view) leading cells and holds
  \<open>toMilliUnitOrDash\<close> of the sample's milli-value, the memory cell follows the CPU
  cells and holds \<open>toUnitOrDash\<close> of the sample's value; each is the dash exactly when
  the measured value is 0 and the formatted value otherwise.
\<close>

theorem usage_cell_of_present_sample:
  assumes "\<not> noMetrics o'"
    and "containerRow env o' (Some m) n pod st age c = Some row"
    and "m (PodName pod) (ContainerName c) = (cpu, mem)"
  shows "(\<forall>q. cpu = Some q \<longrightarrow>
            podInfoToRow o' row ! (if compactView o' then 5 else 7)
              = toMilliUnitOrDash o' (MilliValue q) \<and>
            (toMilliUnitOrDash o' (MilliValue q) = ''-'' \<longleftrightarrow> MilliValue q = 0)) \<and>
         (\<forall>q. mem = Some q \<longrightarrow>
            podInfoToRow o' row ! ((if compactView o' then 5 else 9) + (if cpu = None then 0 else 1))
              = toUnitOrDash (unitChoice env) o' (Value q) \<and>
            (toUnitOrDash (unitChoice env) o' (Value q) = ''-'' \<longleftrightarrow> Value q = 0))"
proof -
  note used = containerRow_used[OF assms]
  have dash: "toMilliUnitOrDash o' v = ''-'' \<longleftrightarrow> v = 0"
    "toUnitOrDash (unitChoice env) o' v = ''-'' \<longleftrightarrow> v = 0" for v
    by (simp_all add: toUnitOrDash_def toMilliUnitOrDash_def toUnit_not_dash
        milliQuantityString_not_dash FormatInt_not_dash)
  have c: "podInfoToRow o' row ! (if compactView o' then 5 else 7)
      = toMilliUnitOrDash o' (MilliValue q)" if "cpu = Some q" for q
    using that used(1) assms(1) by (simp add: podInfoToRow_def Let_def nth_append)
  have m: "podInfoToRow o' row ! ((if compactView o' then 5 else 9) + (if cpu = None then 0 else 1))
      = toUnitOrDash (unitChoice env) o' (Value q)" if "mem = Some q" for q
    using that used assms(1) by (cases cpu) (simp_all add: podInfoToRow_def Let_def nth_append)
  show ?thesis using c m dash by blast
qed

theorem usage_cell_of_present_sample_witness:
  "\<not> noMetrics NewFreeOptions \<and>
   podInfoToRow NewFreeOptions
     (the (containerRow testEnv NewFreeOptions (Some busyMetrics) ''node1'' pod1 ''Running''
        ''<unknown>'' web)) ! 5 = ''58m'' \<and>
   podInfoToRow NewFreeOptions
     (the (containerRow testEnv NewFreeOptions (Some busyMetrics) ''node1'' pod1 ''Running''
        ''<unknown>'' web)) ! 6 = ''2M''"
proof -
  have h: "\<not> noMetrics NewFreeOptions" by (simp add: NewFreeOptions_def)
  obtain row where row: "containerRow testEnv NewFreeOptions (Some busyMetrics) ''node1'' pod1
      ''Running'' ''<unknown>'' web = Some row"
    by (simp add: containerRow_def NewFreeOptions_def web_def Let_def busyMetrics_def)
  have m: "busyMetrics (PodName pod1) (ContainerName web) = (Some 58000000, Some 2144333000000000)"
    by (simp add: busyMetrics_def)
  have v: "toMilliUnitOrDash NewFreeOptions (MilliValue 58000000) = ''58m''"
    "toUnitOrDash (unitChoice testEnv) NewFreeOptions (Value 2144333000000000) = ''2M''"
    by code_simp+
  have c: "compactView NewFreeOptions" by (simp add: NewFreeOptions_def)
  show ?thesis
    using usage_cell_of_present_sample[OF h row m] h row v c by simp
qed

subsection \<open>Failing listings\<close>

lemma Run_node_listing_error:
  "GetNodes env args (labelSelector o') = Inl err \<Longrightarrow> Run env o' table args = (None, None)"
  by (simp add: Run_def)

lemma nodeLoop_pod_listing_error:
  "GetPods env (NodeName node) = Inl perr \<Longrightarrow>
   nodeLoop env o' pm (node # nodes) t = Inl perr"
  by simp

lemma Run_pod_listing_error:
  assumes "GetNodes env args (labelSelector o') = Inr (node # nodes)"
    and "list o'"
    and "GetPods env (NodeName node) = Inl perr"
  shows "Run env o' table args = (Some perr, None)"
  using assms by (simp add: Run_def showPodsOnNode_def Let_def)

text \<open>
  C3. When the node listing fails, \<open>Run\<close> returns no error at all (\<open>None\<close>, Go's
  \<^verbatim>\<open>nil\<close>) and prints nothing: the error is dropped. A failing pod listing, in
  contrast, is returned to the caller.
\<close>

theorem Run_drops_node_listing_error:
  "Run (testEnv\<lparr>GetNodes := (\<lambda>args sel. Inl ''connection refused'')\<rparr>)
     (NewFreeOptions\<lparr>list := True\<rparr>) emptyTable [] = (None, None) \<and>
   Run (testEnv\<lparr>GetPods := (\<lambda>n. Inl ''connection refused'')\<rparr>)
     (NewFreeOptions\<lparr>list := True\<rparr>) emptyTable [] = (Some ''connection refused'', None)"
  by (simp add: Run_def showPodsOnNode_def Let_def NewFreeOptions_def testEnv_def)

section \<open>Properties of the sort\<close>

subsection \<open>Insertion sort, loop by loop\<close>

lemma swap_adjacent: "swap (p @ y # x # s) (Suc (length p)) (length p) = p @ x # y # s"
  by (simp add: swap_def nth_append list_update_append)

lemma insertionInner_prefix:
  "insertionInner lessf (p @ x # s) 0 (length p) = rev (insertDesc lessf x (rev p)) @ s"
proof (induction p arbitrary: s rule: rev_induct)
  case Nil
  show ?case by (subst insertionInner.simps) simp
next
  case (snoc y p)
  show ?case
  proof (cases "lessf x y")
    case True
    have "insertionInner lessf ((p @ [y]) @ x # s) 0 (length (p @ [y]))
        = insertionInner lessf (swap (p @ y # x # s) (Suc (length p)) (length p)) 0 (length p)"
      using True by (subst insertionInner.simps) (simp add: nth_append)
    also have "\<dots> = insertionInner lessf (p @ x # (y # s)) 0 (length p)"
      by (simp only: swap_adjacent)
    also have "\<dots> = rev (insertDesc lessf x (rev p)) @ y # s"
      by (rule snoc.IH)
    finally show ?thesis using True by simp
  next
    case False
    then show ?thesis by (subst insertionInner.simps) (simp add: nth_append)
  qed
qed

lemma insertionOuter_prefix:
  "insertionOuter lessf (p @ s) 0 (length p) (length p + length s)
     = rev (foldl (\<lambda>acc x. insertDesc lessf x acc) (rev p) s)"
proof (induction s arbitrary: p)
  case Nil
  show ?case by (subst insertionOuter.simps) simp
next
  case (Cons x s)
  have "insertionOuter lessf (p @ x # s) 0 (length p) (length p + length (x # s))
      = insertionOuter lessf (rev (insertDesc lessf x (rev p)) @ s) 0 (Suc (length p))
          (length p + length (x # s))"
    by (subst insertionOuter.simps) (simp add: insertionInner_prefix)
  moreover have len: "length (insertDesc lessf x l) = Suc (length l)" for l
    by (induction l) auto
  ultimately show ?case
    using Cons.IH[of "rev (insertDesc lessf x (rev p))"] by (simp add: len)
qed

lemma insertionSort_fold:
  "insertionSort lessf data = rev (foldl (\<lambda>acc x. insertDesc lessf x acc) [] data)"
proof (cases data)
  case Nil
  then show ?thesis
    by (simp add: insertionSort_def insertionSortLessFunc_def insertionOuter.simps)
next
  case (Cons x s)
  have "insertionOuter lessf ([x] @ s) 0 (length [x]) (length [x] + length s)
      = rev (foldl (\<lambda>acc x. insertDesc lessf x acc) (rev [x]) s)"
    by (rule insertionOuter_prefix)
  then show ?thesis using Cons
    by (simp add: insertionSort_def insertionSortLessFunc_def)
qed

lemma lessMemory_key: "lessMemory a b \<longleftrightarrow> memoryKey a < memoryKey b"
  by (cases "containerMemoryUsed a"; cases "containerMemoryUsed b")
     (auto simp: lessMemory_def memoryKey_def Cmp_def)

lemma lessCPU_key: "lessCPU a b \<longleftrightarrow> cpuKey a < cpuKey b"
  by (cases "containerCPUUsed a"; cases "containerCPUUsed b")
     (auto simp: lessCPU_def cpuKey_def Cmp_def)

lemma mset_insertDesc: "mset (insertDesc lessf x l) = add_mset x (mset l)"
  by (induction l) auto

lemma mset_foldl_insertDesc:
  "mset (foldl (\<lambda>acc x. insertDesc lessf x acc) acc xs) = mset acc + mset xs"
  by (induction xs arbitrary: acc) (auto simp: mset_insertDesc)

lemma set_insertDesc: "set (insertDesc lessf x l) = insert x (set l)"
  by (induction l) auto

lemma descending_insertDesc:
  fixes f :: "'a \<Rightarrow> 'k::linorder"
  assumes key: "\<And>a b. lessf a b \<longleftrightarrow> f a < f b"
    and "sorted_wrt (\<lambda>a b. f b \<le> f a) l"
  shows "sorted_wrt (\<lambda>a b. f b \<le> f a) (insertDesc lessf x l)"
  using assms(2)
proof (induction l)
  case Nil
  show ?case by simp
next
  case (Cons y ys)
  show ?case
  proof (cases "lessf x y")
    case True
    then have "f x \<le> f y" using key by (simp add: less_imp_le)
    with Cons True show ?thesis by (auto simp: set_insertDesc)
  next
    case False
    then have "f y \<le> f x" using key by (simp add: not_less)
    with Cons False show ?thesis by (auto intro: order_trans)
  qed
qed

lemma descending_foldl_insertDesc:
  fixes f :: "'a \<Rightarrow> 'k::linorder"
  assumes key: "\<And>a b. lessf a b \<longleftrightarrow> f a < f b"
    and "sorted_wrt (\<lambda>a b. f b \<le> f a) acc"
  shows "sorted_wrt (\<lambda>a b. f b \<le> f a) (foldl (\<lambda>acc x. insertDesc lessf x acc) acc xs)"
  using assms(2)
proof (induction xs arbitrary: acc)
  case Nil
  then show ?case by simp
next
  case (Cons x xs)
  show ?case
    using Cons.IH[OF descending_insertDesc[OF key Cons.prems]] by simp
qed

lemma filter_insertDesc:
  fixes f :: "'a \<Rightarrow> 'k::linorder"
  assumes key: "\<And>a b. lessf a b \<longleftrightarrow> f a < f b"
  shows "filter (\<lambda>y. f y = k) (insertDesc lessf x l)
       = (if f x = k then x # filter (\<lambda>y. f y = k) l else filter (\<lambda>y. f y = k) l)"
  by (induction l) (auto simp: key)

lemma filter_foldl_insertDesc:
  fixes f :: "'a \<Rightarrow> 'k::linorder"
  assumes key: "\<And>a b. lessf a b \<longleftrightarrow> f a < f b"
  shows "filter (\<lambda>y. f y = k) (foldl (\<lambda>acc x. insertDesc lessf x acc) acc xs)
       = rev (filter (\<lambda>y. f y = k) xs) @ filter (\<lambda>y. f y = k) acc"
  by (induction xs arbitrary: acc) (auto simp: filter_insertDesc[OF key])

lemma insertionSort_mset: "mset (insertionSort lessf data) = mset data"
  by (simp add: insertionSort_fold mset_foldl_insertDesc)

lemma insertionSort_ascending:
  fixes f :: "'a \<Rightarrow> 'k::linorder"
  assumes key: "\<And>a b. lessf a b \<longleftrightarrow> f a < f b"
  shows "ascending lessf (insertionSort lessf data)"
proof -
  have "sorted_wrt (\<lambda>a b. f b \<le> f a) (foldl (\<lambda>acc x. insertDesc lessf x acc) [] data)"
    by (rule descending_foldl_insertDesc[OF key]) simp
  then show ?thesis
    by (simp add: ascending_def insertionSort_fold sorted_wrt_rev key not_less)
qed

lemma insertionSort_stable:
  fixes f :: "'a \<Rightarrow> 'k::linorder"
  assumes key: "\<And>a b. lessf a b \<longleftrightarrow> f a < f b"
  shows "filter (\<lambda>x. \<not> lessf r x \<and> \<not> lessf x r) (insertionSort lessf data)
       = filter (\<lambda>x. \<not> lessf r x \<and> \<not> lessf x r) data"
proof -
  have eq: "(\<lambda>x. \<not> lessf r x \<and> \<not> lessf x r) = (\<lambda>x. f x = f r)"
    by (auto simp: key)
  show ?thesis
    by (simp add: eq insertionSort_fold filter_foldl_insertDesc[OF key] rev_filter[symmetric])
qed

lemma insertionSort_sortsBy_memory: "sortsBy insertionSort lessMemory"
  unfolding sortsBy_def
  using insertionSort_mset insertionSort_ascending[of lessMemory memoryKey] lessMemory_key
  by blast

lemma insertionSort_sortsBy_cpu: "sortsBy insertionSort lessCPU"
  unfolding sortsBy_def
  using insertionSort_mset insertionSort_ascending[of lessCPU cpuKey] lessCPU_key
  by blast


subsection \<open>SortFunc on short slices\<close>

lemma SortFunc_short: "length x \<le> 12 \<Longrightarrow> SortFunc lessf x = insertionSort lessf x"
  by (simp add: SortFunc_def Let_def insertionSort_def pdqsortLessFunc.simps)

lemma lessMemory_None:
  "containerMemoryUsed a = None \<Longrightarrow> containerMemoryUsed b = None \<Longrightarrow> \<not> lessMemory a b"
  "containerMemoryUsed a = None \<Longrightarrow> containerMemoryUsed b \<noteq> None \<Longrightarrow> lessMemory a b"
  "containerMemoryUsed a \<noteq> None \<Longrightarrow> containerMemoryUsed b = None \<Longrightarrow> \<not> lessMemory a b"
  by (simp_all add: lessMemory_def)

lemma lessCPU_None:
  "containerCPUUsed a = None \<Longrightarrow> containerCPUUsed b = None \<Longrightarrow> \<not> lessCPU a b"
  "containerCPUUsed a = None \<Longrightarrow> containerCPUUsed b \<noteq> None \<Longrightarrow> lessCPU a b"
  "containerCPUUsed a \<noteq> None \<Longrightarrow> containerCPUUsed b = None \<Longrightarrow> \<not> lessCPU a b"
  by (simp_all add: lessCPU_def)

lemma ascending_nth:
  "ascending lessf out \<Longrightarrow> i < j \<Longrightarrow> j < length out \<Longrightarrow> \<not> lessf (out ! j) (out ! i)"
  using sorted_wrt_nth_less[of "\<lambda>a b. \<not> lessf b a" out i j] by (simp add: ascending_def)

subsection \<open>Rows without a usage sample\<close>

text \<open>
  C1, as the claim states it: a row with a sample and a row without one come out with
  the row without a sample first, because the closure calls the missing sample less than
  the present one; and of thirteen rows of which only the twelfth has a sample, the
  first and the seventh, both without a sample, come out in the opposite order.
\<close>

theorem missing_rows_counterexample:
  "lessMemory (bareRow ''b'') (usageRow ''a'' 5) \<and>
   \<not> lessMemory (usageRow ''a'' 5) (bareRow ''b'') \<and>
   sortEntries SortFunc NewFreeOptions [usageRow ''a'' 5, bareRow ''b'']
     = [bareRow ''b'', usageRow ''a'' 5] \<and>
   map containerName (sortEntries SortFunc NewFreeOptions missingRows)
     = [''c06'', ''c01'', ''c02'', ''c03'', ''c04'', ''c05'', ''c00'', ''c07'', ''c08'',
        ''c09'', ''c10'', ''c12'', ''c11'']"
  by code_simp

text \<open>
  C1, amended. The closures treat missing-vs-missing as equal (not less in either
  direction) and missing-vs-present as less. For every list sorted by a dimension with
  a sort function that meets the contract of \<^verbatim>\<open>SortFunc\<close>, a row without a usage sample
  for that dimension never comes after a row with one: a row without a sample has only
  rows without a sample before it. In a list of at most 12 rows, which \<open>SortFunc\<close>
  sorts by insertion, the rows without a sample keep their relative input order.
\<close>

theorem missing_rows_sort_first:
  assumes "sortsBy srt lessMemory" and "sortsBy srt lessCPU"
  shows "(containerMemoryUsed a = None \<and> containerMemoryUsed b = None \<longrightarrow>
            \<not> lessMemory a b \<and> \<not> lessMemory b a) \<and>
         (containerMemoryUsed a = None \<and> containerMemoryUsed b \<noteq> None \<longrightarrow>
            lessMemory a b \<and> \<not> lessMemory b a) \<and>
         (containerCPUUsed a = None \<and> containerCPUUsed b = None \<longrightarrow>
            \<not> lessCPU a b \<and> \<not> lessCPU b a) \<and>
         (containerCPUUsed a = None \<and> containerCPUUsed b \<noteq> None \<longrightarrow>
            lessCPU a b \<and> \<not> lessCPU b a) \<and>
         (sortByResource o' = memorySortResource \<longrightarrow>
            (\<forall>i j. i < j \<and> j < length (sortEntries srt o' items) \<and>
                   containerMemoryUsed (sortEntries srt o' items ! j) = None \<longrightarrow>
                   containerMemoryUsed (sortEntries srt o' items ! i) = None)) \<and>
         (sortByResource o' = cpuSortResource \<longrightarrow>
            (\<forall>i j. i < j \<and> j < length (sortEntries srt o' items) \<and>
                   containerCPUUsed (sortEntries srt o' items ! j) = None \<longrightarrow>
                   containerCPUUsed (sortEntries srt o' items ! i) = None)) \<and>
         (sortByResource o' = memorySortResource \<and> length items \<le> 12 \<longrightarrow>
            filter (\<lambda>r. containerMemoryUsed r = None) (sortEntries SortFunc o' items)
              = filter (\<lambda>r. containerMemoryUsed r = None) items) \<and>
         (sortByResource o' = cpuSortResource \<and> length items \<le> 12 \<longrightarrow>
            filter (\<lambda>r. containerCPUUsed r = None) (sortEntries SortFunc o' items)
              = filter (\<lambda>r. containerCPUUsed r = None) items)"
proof -
  have mem: "containerMemoryUsed (srt lessMemory items ! i) = None"
    if "i < j" "j < length (srt lessMemory items)"
      "containerMemoryUsed (srt lessMemory items ! j) = None" for i j
  proof (rule ccontr)
    assume "containerMemoryUsed (srt lessMemory items ! i) \<noteq> None"
    then have "lessMemory (srt lessMemory items ! j) (srt lessMemory items ! i)"
      using that(3) by (simp add: lessMemory_None)
    moreover have "ascending lessMemory (srt lessMemory items)"
      using assms(1) by (simp add: sortsBy_def)
    ultimately show False using ascending_nth that(1,2) by blast
  qed
  have cpu: "containerCPUUsed (srt lessCPU items ! i) = None"
    if "i < j" "j < length (srt lessCPU items)"
      "containerCPUUsed (srt lessCPU items ! j) = None" for i j
  proof (rule ccontr)
    assume "containerCPUUsed (srt lessCPU items ! i) \<noteq> None"
    then have "lessCPU (srt lessCPU items ! j) (srt lessCPU items ! i)"
      using that(3) by (simp add: lessCPU_None)
    moreover have "ascending lessCPU (srt lessCPU items)"
      using assms(2) by (simp add: sortsBy_def)
    ultimately show False using ascending_nth that(1,2) by blast
  qed
  have keepM: "filter (\<lambda>r. containerMemoryUsed r = None) (insertionSort lessMemory items)
      = filter (\<lambda>r. containerMemoryUsed r = None) items"
    using filter_foldl_insertDesc[of lessMemory memoryKey None "[]" items] lessMemory_key
    by (simp add: insertionSort_fold memoryKey_def rev_filter[symmetric])
  have keepC: "filter (\<lambda>r. containerCPUUsed r = None) (insertionSort lessCPU items)
      = filter (\<lambda>r. containerCPUUsed r = None) items"
    using filter_foldl_insertDesc[of lessCPU cpuKey None "[]" items] lessCPU_key
    by (simp add: insertionSort_fold cpuKey_def rev_filter[symmetric])
  have diff: "memorySortResource \<noteq> cpuSortResource"
    by (simp add: memorySortResource_def cpuSortResource_def)
  have c1: "containerMemoryUsed a = None \<and> containerMemoryUsed b = None \<longrightarrow>
      \<not> lessMemory a b \<and> \<not> lessMemory b a"
    by (simp add: lessMemory_None)
  have c2: "containerMemoryUsed a = None \<and> containerMemoryUsed b \<noteq> None \<longrightarrow>
      lessMemory a b \<and> \<not> lessMemory b a"
    by (simp add: lessMemory_None)
  have c3: "containerCPUUsed a = None \<and> containerCPUUsed b = None \<longrightarrow>
      \<not> lessCPU a b \<and> \<not> lessCPU b a"
    by (simp add: lessCPU_None)
  have c4: "containerCPUUsed a = None \<and> containerCPUUsed b \<noteq> None \<longrightarrow>
      lessCPU a b \<and> \<not> lessCPU b a"
    by (simp add: lessCPU_None)
  have o1: "sortByResource o' = memorySortResource \<longrightarrow>
      (\<forall>i j. i < j \<and> j < length (sortEntries srt o' items) \<and>
             containerMemoryUsed (sortEntries srt o' items ! j) = None \<longrightarrow>
             containerMemoryUsed (sortEntries srt o' items ! i) = None)"
    using mem by (simp add: sortEntries_def) blast
  have o2: "sortByResource o' = cpuSortResource \<longrightarrow>
      (\<forall>i j. i < j \<and> j < length (sortEntries srt o' items) \<and>
             containerCPUUsed (sortEntries srt o' items ! j) = None \<longrightarrow>
             containerCPUUsed (sortEntries srt o' items ! i) = None)"
    using cpu diff by (simp add: sortEntries_def) blast
  have k1: "sortByResource o' = memorySortResource \<and> length items \<le> 12 \<longrightarrow>
      filter (\<lambda>r. containerMemoryUsed r = None) (sortEntries SortFunc o' items)
        = filter (\<lambda>r. containerMemoryUsed r = None) items"
    using keepM by (simp add: sortEntries_def SortFunc_short)
  have k2: "sortByResource o' = cpuSortResource \<and> length items \<le> 12 \<longrightarrow>
      filter (\<lambda>r. containerCPUUsed r = None) (sortEntries SortFunc o' items)
        = filter (\<lambda>r. containerCPUUsed r = None) items"
    using keepC diff by (simp add: sortEntries_def SortFunc_short)
  show ?thesis
    by (intro conjI c1 c2 c3 c4 o1 o2 k1 k2)
qed

theorem missing_rows_sort_first_witness:
  "sortsBy insertionSort lessMemory \<and> sortsBy insertionSort lessCPU \<and>
   containerMemoryUsed (sortEntries insertionSort NewFreeOptions
       [usageRow ''a'' 5, bareRow ''b'', usageRow ''c'' 3] ! 2) \<noteq> None \<and>
   containerMemoryUsed (sortEntries insertionSort NewFreeOptions
       [usageRow ''a'' 5, bareRow ''b'', usageRow ''c'' 3] ! 1) \<noteq> None \<and>
   sortEntries insertionSort NewFreeOptions [usageRow ''a'' 5, bareRow ''b'', usageRow ''c'' 3]
     = [bareRow ''b'', usageRow ''c'' 3, usageRow ''a'' 5]"
proof -
  let ?out = "sortEntries insertionSort NewFreeOptions
      [usageRow ''a'' 5, bareRow ''b'', usageRow ''c'' 3]"
  have s: "sortByResource NewFreeOptions = memorySortResource"
    by (simp add: NewFreeOptions_def)
  have e: "?out = [bareRow ''b'', usageRow ''c'' 3, usageRow ''a'' 5]"
    by code_simp
  note t = missing_rows_sort_first[OF insertionSort_sortsBy_memory insertionSort_sortsBy_cpu,
      of "bareRow ''b''" "usageRow ''a'' 5" NewFreeOptions
        "[usageRow ''a'' 5, bareRow ''b'', usageRow ''c'' 3]"]
  note o = t[THEN conjunct2, THEN conjunct2, THEN conjunct2, THEN conjunct2, THEN conjunct1,
      THEN mp, OF s]
  have p1: "containerMemoryUsed (?out ! 1) \<noteq> None"
    by (subst e) (simp add: usageRow_def)
  have p2: "containerMemoryUsed (?out ! 2) \<noteq> None"
  proof
    assume "containerMemoryUsed (?out ! 2) = None"
    moreover have "(1::nat) < 2" and "2 < length ?out" by (simp_all add: e)
    ultimately have "containerMemoryUsed (?out ! 1) = None" using o by blast
    with p1 show False by simp
  qed
  show ?thesis
    by (intro conjI insertionSort_sortsBy_memory insertionSort_sortsBy_cpu p2 p1 e)
qed


subsection \<open>Stability\<close>

text \<open>
  C2, as the claim states it: of thirteen rows, twelve with the same memory sample and
  the twelfth with a larger one, the first and the seventh row compare equal and come
  out in the opposite order. The slice is longer than 12, so a pivot is chosen: the
  seventh row, the median of the rows at 3, 6 and 9. \<^verbatim>\<open>partitionLessFunc\<close> swaps the
  pivot with the first row; no row is less than the pivot, so the pivot stays in front
  and the remaining twelve rows are sorted by insertion, which leaves the former first
  row in the seventh place.
\<close>

theorem sort_stable_counterexample:
  "\<not> lessMemory (equalRows ! 0) (equalRows ! 6) \<and>
   \<not> lessMemory (equalRows ! 6) (equalRows ! 0) \<and>
   map containerName (sortEntries SortFunc NewFreeOptions equalRows)
     = [''c06'', ''c01'', ''c02'', ''c03'', ''c04'', ''c05'', ''c00'', ''c07'', ''c08'',
        ''c09'', ''c10'', ''c12'', ''c11'']"
  by code_simp

text \<open>
  C2, amended. For every list of at most 12 rows, which \<open>SortFunc\<close> sorts by insertion,
  the sort by a dimension is ascending, rearranges the rows, and is stable: for every
  row, the rows that the closure treats as equal to it come out in their relative input
  order.
\<close>

theorem sort_stable_up_to_12:
  assumes "length items \<le> 12"
  shows "(sortByResource o' = memorySortResource \<longrightarrow>
            ascending lessMemory (sortEntries SortFunc o' items) \<and>
            mset (sortEntries SortFunc o' items) = mset items \<and>
            (\<forall>r. filter (\<lambda>x. \<not> lessMemory r x \<and> \<not> lessMemory x r) (sortEntries SortFunc o' items)
                 = filter (\<lambda>x. \<not> lessMemory r x \<and> \<not> lessMemory x r) items)) \<and>
         (sortByResource o' = cpuSortResource \<longrightarrow>
            ascending lessCPU (sortEntries SortFunc o' items) \<and>
            mset (sortEntries SortFunc o' items) = mset items \<and>
            (\<forall>r. filter (\<lambda>x. \<not> lessCPU r x \<and> \<not> lessCPU x r) (sortEntries SortFunc o' items)
                 = filter (\<lambda>x. \<not> lessCPU r x \<and> \<not> lessCPU x r) items))"
proof -
  have diff: "memorySortResource \<noteq> cpuSortResource"
    by (simp add: memorySortResource_def cpuSortResource_def)
  have m: "ascending lessMemory (insertionSort lessMemory items)"
    "\<And>r. filter (\<lambda>x. \<not> lessMemory r x \<and> \<not> lessMemory x r) (insertionSort lessMemory items)
         = filter (\<lambda>x. \<not> lessMemory r x \<and> \<not> lessMemory x r) items"
    using insertionSort_ascending[of lessMemory memoryKey]
      insertionSort_stable[of lessMemory memoryKey] lessMemory_key by blast+
  have c: "ascending lessCPU (insertionSort lessCPU items)"
    "\<And>r. filter (\<lambda>x. \<not> lessCPU r x \<and> \<not> lessCPU x r) (insertionSort lessCPU items)
         = filter (\<lambda>x. \<not> lessCPU r x \<and> \<not> lessCPU x r) items"
    using insertionSort_ascending[of lessCPU cpuKey]
      insertionSort_stable[of lessCPU cpuKey] lessCPU_key by blast+
  have M: "sortByResource o' = memorySortResource \<longrightarrow>
      ascending lessMemory (sortEntries SortFunc o' items) \<and>
      mset (sortEntries SortFunc o' items) = mset items \<and>
      (\<forall>r. filter (\<lambda>x. \<not> lessMemory r x \<and> \<not> lessMemory x r) (sortEntries SortFunc o' items)
           = filter (\<lambda>x. \<not> lessMemory r x \<and> \<not> lessMemory x r) items)"
    using assms m by (simp add: sortEntries_def SortFunc_short insertionSort_mset)
  have C: "sortByResource o' = cpuSortResource \<longrightarrow>
      ascending lessCPU (sortEntries SortFunc o' items) \<and>
      mset (sortEntries SortFunc o' items) = mset items \<and>
      (\<forall>r. filter (\<lambda>x. \<not> lessCPU r x \<and> \<not> lessCPU x r) (sortEntries SortFunc o' items)
           = filter (\<lambda>x. \<not> lessCPU r x \<and> \<not> lessCPU x r) items)"
    using assms c diff by (simp add: sortEntries_def SortFunc_short insertionSort_mset)
  show ?thesis
    by (intro conjI M C)
qed

theorem sort_stable_up_to_12_witness:
  "length [usageRow ''a'' 5, usageRow ''b'' 3, usageRow ''c'' 5, bareRow ''d''] \<le> 12 \<and>
   filter (\<lambda>x. \<not> lessMemory (usageRow ''a'' 5) x \<and> \<not> lessMemory x (usageRow ''a'' 5))
     (sortEntries SortFunc NewFreeOptions
        [usageRow ''a'' 5, usageRow ''b'' 3, usageRow ''c'' 5, bareRow ''d''])
     = [usageRow ''a'' 5, usageRow ''c'' 5] \<and>
   sortEntries SortFunc NewFreeOptions
        [usageRow ''a'' 5, usageRow ''b'' 3, usageRow ''c'' 5, bareRow ''d'']
     = [bareRow ''d'', usageRow ''b'' 3, usageRow ''a'' 5, usageRow ''c'' 5]"
proof -
  have l: "length [usageRow ''a'' 5, usageRow ''b'' 3, usageRow ''c'' 5, bareRow ''d''] \<le> 12"
    by simp
  have s: "sortByResource NewFreeOptions = memorySortResource"
    by (simp add: NewFreeOptions_def)
  have f: "filter (\<lambda>x. \<not> lessMemory (usageRow ''a'' 5) x \<and> \<not> lessMemory x (usageRow ''a'' 5))
      [usageRow ''a'' 5, usageRow ''b'' 3, usageRow ''c'' 5, bareRow ''d'']
      = [usageRow ''a'' 5, usageRow ''c'' 5]"
    by code_simp
  have e: "sortEntries SortFunc NewFreeOptions
        [usageRow ''a'' 5, usageRow ''b'' 3, usageRow ''c'' 5, bareRow ''d'']
     = [bareRow ''d'', usageRow ''b'' 3, usageRow ''a'' 5, usageRow ''c'' 5]"
    by code_simp
  note t = sort_stable_up_to_12[OF l, of NewFreeOptions, THEN conjunct1, THEN mp, OF s,
      THEN conjunct2, THEN conjunct2, THEN spec, of "usageRow ''a'' 5"]
  have "filter (\<lambda>x. \<not> lessMemory (usageRow ''a'' 5) x \<and> \<not> lessMemory x (usageRow ''a'' 5))
     (sortEntries SortFunc NewFreeOptions
        [usageRow ''a'' 5, usageRow ''b'' 3, usageRow ''c'' 5, bareRow ''d''])
     = [usageRow ''a'' 5, usageRow ''c'' 5]"
    using t f by (rule trans)
  then show ?thesis
    by (intro conjI l e)
qed

section \<open>Properties of the listing\<close>

lemma foldl_AddRow:
  "foldl (\<lambda>t r. AddRow env t (f r)) t rs = t\<lparr>Rows := Rows t @ map (\<lambda>r. JoinTab env (f r)) rs\<rparr>"
  by (induction rs arbitrary: t) (simp_all add: AddRow_def)

lemma nodeLoop_rows:
  assumes "\<forall>node\<in>set nodes. \<exists>pods. GetPods env (NodeName node) = Inr pods"
  shows "nodeLoop env o' pm nodes t =
           Inr (t\<lparr>Rows := Rows t @ concat (map (\<lambda>node. map (\<lambda>r. JoinTab env (podInfoToRow o' r))
                  (nodeRows env o' pm (NodeName node) (projr (GetPods env (NodeName node)))))
                  nodes)\<rparr>)"
  using assms
proof (induction nodes arbitrary: t)
  case Nil
  show ?case by simp
next
  case (Cons node nodes)
  obtain pods where pods: "GetPods env (NodeName node) = Inr pods"
    using Cons.prems by auto
  have rest: "\<forall>node\<in>set nodes. \<exists>pods. GetPods env (NodeName node) = Inr pods"
    using Cons.prems by simp
  show ?case
    by (simp add: pods Cons.IH[OF rest] foldl_AddRow)
qed

lemma containerRow_nodeName:
  "containerRow env o' pm n pod st age c = Some row \<Longrightarrow> nodeName row = n"
  by (auto simp: containerRow_def Let_def split: if_splits option.splits prod.splits)

lemma containerLoop_nodeName:
  assumes "\<forall>r\<in>set nodePods. nodeName r = n"
  shows "\<forall>r\<in>set (containerLoop env o' pm n pod st age cs nodePods). nodeName r = n"
  using assms
proof (induction cs arbitrary: nodePods)
  case Nil
  then show ?case by simp
next
  case (Cons c cs)
  show ?case
  proof (cases "containerRow env o' pm n pod st age c")
    case None
    then show ?thesis using Cons by simp
  next
    case (Some row)
    then have "\<forall>r\<in>set (nodePods @ [row]). nodeName r = n"
      using Cons.prems containerRow_nodeName by auto
    then have "\<forall>r\<in>set (containerLoop env o' pm n pod st age cs (nodePods @ [row])).
        nodeName r = n"
      by (rule Cons.IH)
    then show ?thesis using Some by simp
  qed
qed

lemma podLoop_nodeName:
  assumes "\<forall>r\<in>set nodePods. nodeName r = n"
  shows "\<forall>r\<in>set (podLoop env o' pm n pods nodePods). nodeName r = n"
  using assms
proof (induction pods arbitrary: nodePods)
  case Nil
  then show ?case by simp
next
  case (Cons pod pods)
  show ?case
    using Cons.IH[OF containerLoop_nodeName[OF Cons.prems]] by (simp add: Let_def)
qed

lemma sortEntries_mset:
  assumes "\<forall>lessf items. mset (srt lessf items) = mset items"
  shows "mset (sortEntries srt o' items) = mset items"
  using assms by (simp add: sortEntries_def)

text \<open>
  C10. In list mode, when every pod listing succeeds and the sort function returns a
  rearrangement of its input, the table that is printed holds, after the rows it had,
  one group of rows per node, the groups in the order of the node list. The group of a
  node is a rearrangement of the rows the pod loop built for that node, every row of it
  carries that node's name, and with \<open>noMetrics\<close> the group is the built rows in their
  construction order. So the rows of an earlier node all precede the rows of a later
  node, and sorting never moves a row from one node's group into another's.
\<close>

theorem rows_grouped_by_node:
  fixes env :: Env and o' :: FreeOptions and nodes :: "Node list"
  defines "pm \<equiv> (if \<not> noMetrics o' \<and> metricsPodClient env \<noteq> None
                  then metricsPodClient env else None)"
  defines "built \<equiv> (\<lambda>node. podLoop env o' pm (NodeName node)
                              (projr (GetPods env (NodeName node))) [])"
  defines "groups \<equiv> map (\<lambda>node. nodeRows env o' pm (NodeName node)
                                  (projr (GetPods env (NodeName node)))) nodes"
  assumes pods: "\<forall>node\<in>set nodes. \<exists>pods. GetPods env (NodeName node) = Inr pods"
    and perm: "\<forall>lessf items. mset (sortFunc env lessf items) = mset items"
  shows "showPodsOnNode env o' table nodes =
           (None, Some ((if \<not> noHeaders o' then table\<lparr>Header := listTableHeaders o'\<rparr> else table)
                         \<lparr>Rows := Rows table @
                            concat (map (map (\<lambda>r. JoinTab env (podInfoToRow o' r))) groups)\<rparr>)) \<and>
         length groups = length nodes \<and>
         (\<forall>k<length nodes.
            (\<forall>r\<in>set (groups ! k). nodeName r = NodeName (nodes ! k)) \<and>
            mset (groups ! k) = mset (built (nodes ! k)) \<and>
            (noMetrics o' \<longrightarrow> groups ! k = built (nodes ! k)))"
proof -
  have shown: "showPodsOnNode env o' table nodes =
      (None, Some ((if \<not> noHeaders o' then table\<lparr>Header := listTableHeaders o'\<rparr> else table)
                    \<lparr>Rows := Rows table @
                       concat (map (map (\<lambda>r. JoinTab env (podInfoToRow o' r))) groups)\<rparr>))"
    unfolding showPodsOnNode_def Let_def pm_def[symmetric]
    by (simp add: nodeLoop_rows[OF pods] groups_def comp_def)
  have len: "length groups = length nodes"
    by (simp add: groups_def)
  have group: "(\<forall>r\<in>set (groups ! k). nodeName r = NodeName (nodes ! k)) \<and>
      mset (groups ! k) = mset (built (nodes ! k)) \<and>
      (noMetrics o' \<longrightarrow> groups ! k = built (nodes ! k))" if "k < length nodes" for k
  proof -
    have g: "groups ! k = nodeRows env o' pm (NodeName (nodes ! k))
        (projr (GetPods env (NodeName (nodes ! k))))"
      using that by (simp add: groups_def)
    have m: "mset (groups ! k) = mset (built (nodes ! k))"
      by (simp add: g nodeRows_def Let_def built_def sortEntries_mset[OF perm])
    have names: "\<forall>r\<in>set (built (nodes ! k)). nodeName r = NodeName (nodes ! k)"
      unfolding built_def by (rule podLoop_nodeName) simp
    have "set (groups ! k) = set (built (nodes ! k))"
      using m by (rule mset_eq_setD)
    with names have n: "\<forall>r\<in>set (groups ! k). nodeName r = NodeName (nodes ! k)"
      by simp
    have "noMetrics o' \<longrightarrow> groups ! k = built (nodes ! k)"
      by (simp add: g nodeRows_def Let_def built_def)
    with n m show ?thesis by simp
  qed
  show ?thesis
    using shown len group by blast
qed

theorem rows_grouped_by_node_witness:
  "showPodsOnNode (testEnv\<lparr>sortFunc := insertionSort, metricsPodClient := Some busyMetrics\<rparr>)
     NewFreeOptions emptyTable [node1, node2] =
     (None, Some \<lparr>Header = [],
                  Rows = [''node1|default|pod1|Running|web|58m|2M|'',
                          ''node2|default|pod1|Running|web|58m|2M|'']\<rparr>)"
proof -
  let ?env = "testEnv\<lparr>sortFunc := insertionSort, metricsPodClient := Some busyMetrics\<rparr>"
  have h1: "\<forall>node\<in>set [node1, node2]. \<exists>pods. GetPods ?env (NodeName node) = Inr pods"
    by (simp add: testEnv_def)
  have h2: "\<forall>lessf items. mset (sortFunc ?env lessf items) = mset items"
    by (simp add: insertionSort_mset)
  note t = rows_grouped_by_node[OF h1 h2, of NewFreeOptions emptyTable, THEN conjunct1]
  have "(None :: error option, Some ((if \<not> noHeaders NewFreeOptions
            then emptyTable\<lparr>Header := listTableHeaders NewFreeOptions\<rparr> else emptyTable)
          \<lparr>Rows := Rows emptyTable @
             concat (map (map (\<lambda>r. JoinTab ?env (podInfoToRow NewFreeOptions r)))
               (map (\<lambda>node. nodeRows ?env NewFreeOptions
                   (if \<not> noMetrics NewFreeOptions \<and> metricsPodClient ?env \<noteq> None
                    then metricsPodClient ?env else None)
                   (NodeName node) (projr (GetPods ?env (NodeName node)))) [node1, node2]))\<rparr>))
      = (None, Some \<lparr>Header = [],
                  Rows = [''node1|default|pod1|Running|web|58m|2M|'',
                          ''node2|default|pod1|Running|web|58m|2M|'']\<rparr>)"
    by code_simp
  with t show ?thesis
    by (rule trans)
qed

section \<open>Properties of the node rollup\<close>

lemma percentage_div:
  "0 < capacity \<Longrightarrow> 0 \<le> x \<Longrightarrow> percentage x capacity = Some ((100 * x) div capacity)"
  by (simp add: percentage_def signed_divide_int_def sgn_if)

lemma div_floor:
  "(100 * x) div capacity = \<lfloor>100 * real_of_int x / real_of_int capacity\<rfloor>"
proof -
  have "\<lfloor>real_of_int (100 * x) / real_of_int capacity\<rfloor> = (100 * x) div capacity"
    by (rule floor_divide_of_int_eq)
  then show ?thesis by simp
qed

text \<open>
  C7. For every capacity above 0 and every usage from 0 to the capacity, the percentage
  is the floor of \<open>100 * usage / capacity\<close> and lies between 0 and 100; and when a
  capacity of the node is 0, the use, request and limit percentages of that dimension
  are all absent, whatever the usage, while the sums of requests and limits and the
  usage itself are still reported.
\<close>

theorem percentage_of_capacity:
  "(0 < capacity \<and> 0 \<le> usage \<and> usage \<le> capacity \<longrightarrow>
      percentage usage capacity = Some \<lfloor>100 * real_of_int usage / real_of_int capacity\<rfloor> \<and>
      0 \<le> \<lfloor>100 * real_of_int usage / real_of_int capacity\<rfloor> \<and>
      \<lfloor>100 * real_of_int usage / real_of_int capacity\<rfloor> \<le> 100) \<and>
   (allocatableCPU node = 0 \<longrightarrow>
      cpuUseP (rollup node sample pods) = None \<and>
      cpuReqP (rollup node sample pods) = None \<and>
      cpuLimP (rollup node sample pods) = None \<and>
      cpuUse (rollup node sample pods) = map_option usageCPU sample \<and>
      cpuReq (rollup node sample pods) = sum_list (map (\<lambda>p. requestCPU (fst p)) pods) \<and>
      cpuLim (rollup node sample pods) = sum_list (map (\<lambda>p. limitCPU (fst p)) pods)) \<and>
   (allocatableMemory node = 0 \<longrightarrow>
      memUseP (rollup node sample pods) = None \<and>
      memReqP (rollup node sample pods) = None \<and>
      memLimP (rollup node sample pods) = None \<and>
      memUse (rollup node sample pods) = map_option usageMemory sample \<and>
      memReq (rollup node sample pods) = sum_list (map (\<lambda>p. requestMemory (fst p)) pods) \<and>
      memLim (rollup node sample pods) = sum_list (map (\<lambda>p. limitMemory (fst p)) pods))"
proof -
  have p: "percentage usage capacity = Some \<lfloor>100 * real_of_int usage / real_of_int capacity\<rfloor> \<and>
      0 \<le> \<lfloor>100 * real_of_int usage / real_of_int capacity\<rfloor> \<and>
      \<lfloor>100 * real_of_int usage / real_of_int capacity\<rfloor> \<le> 100"
    if "0 < capacity" "0 \<le> usage" "usage \<le> capacity"
  proof -
    have lo: "0 \<le> (100 * usage) div capacity"
      using that by (simp add: pos_imp_zdiv_nonneg_iff)
    have "(100 * usage) div capacity \<le> (100 * capacity) div capacity"
      using that by (intro zdiv_mono1) simp_all
    then have hi: "(100 * usage) div capacity \<le> 100"
      using that by simp
    show ?thesis
      using lo hi percentage_div[OF that(1,2)] by (simp add: div_floor)
  qed
  have c: "allocatableCPU node = 0 \<longrightarrow>
      cpuUseP (rollup node sample pods) = None \<and>
      cpuReqP (rollup node sample pods) = None \<and>
      cpuLimP (rollup node sample pods) = None \<and>
      cpuUse (rollup node sample pods) = map_option usageCPU sample \<and>
      cpuReq (rollup node sample pods) = sum_list (map (\<lambda>p. requestCPU (fst p)) pods) \<and>
      cpuLim (rollup node sample pods) = sum_list (map (\<lambda>p. limitCPU (fst p)) pods)"
    by (simp add: rollup_def Let_def percentage_def comp_def split: option.splits)
  have m: "allocatableMemory node = 0 \<longrightarrow>
      memUseP (rollup node sample pods) = None \<and>
      memReqP (rollup node sample pods) = None \<and>
      memLimP (rollup node sample pods) = None \<and>
      memUse (rollup node sample pods) = map_option usageMemory sample \<and>
      memReq (rollup node sample pods) = sum_list (map (\<lambda>p. requestMemory (fst p)) pods) \<and>
      memLim (rollup node sample pods) = sum_list (map (\<lambda>p. limitMemory (fst p)) pods)"
    by (simp add: rollup_def Let_def percentage_def comp_def split: option.splits)
  show ?thesis
    using p by (intro conjI c m) blast
qed

theorem percentage_of_capacity_witness:
  "(0::int) < 3600 \<and> (0::int) \<le> 58 \<and> (58::int) \<le> 3600 \<and>
   percentage 58 3600 = Some 1 \<and>
   allocatableCPU \<lparr>allocatableCPU = 0, allocatableMemory = 5943857\<rparr> = 0 \<and>
   cpuUseP (rollup \<lparr>allocatableCPU = 0, allocatableMemory = 5943857\<rparr>
              (Some \<lparr>usageCPU = 58, usageMemory = 2144333\<rparr>)
              [(\<lparr>requestCPU = 704, limitCPU = 304, requestMemory = 807403,
                 limitMemory = 375390\<rparr>, None)]) = None \<and>
   cpuReq (rollup \<lparr>allocatableCPU = 0, allocatableMemory = 5943857\<rparr>
              (Some \<lparr>usageCPU = 58, usageMemory = 2144333\<rparr>)
              [(\<lparr>requestCPU = 704, limitCPU = 304, requestMemory = 807403,
                 limitMemory = 375390\<rparr>, None)]) = 704"
proof -
  have h: "(0::int) < 3600 \<and> (0::int) \<le> 58 \<and> (58::int) \<le> 3600" by simp
  have z: "allocatableCPU \<lparr>allocatableCPU = 0, allocatableMemory = 5943857\<rparr> = 0" by simp
  note t = percentage_of_capacity[of 3600 58
      "\<lparr>allocatableCPU = 0, allocatableMemory = 5943857\<rparr>"
      "Some \<lparr>usageCPU = 58, usageMemory = 2144333\<rparr>"
      "[(\<lparr>requestCPU = 704, limitCPU = 304, requestMemory = 807403,
          limitMemory = 375390\<rparr>, None)]"]
  have f: "\<lfloor>100 * real_of_int 58 / real_of_int 3600\<rfloor> = (1::int)"
    by (simp add: floor_eq_iff)
  have a: "percentage 58 3600 = Some 1"
    using t[THEN conjunct1, THEN mp, OF h, THEN conjunct1] f by simp
  note c = t[THEN conjunct2, THEN conjunct1, THEN mp, OF z]
  have b: "cpuUseP (rollup \<lparr>allocatableCPU = 0, allocatableMemory = 5943857\<rparr>
              (Some \<lparr>usageCPU = 58, usageMemory = 2144333\<rparr>)
              [(\<lparr>requestCPU = 704, limitCPU = 304, requestMemory = 807403,
                 limitMemory = 375390\<rparr>, None)]) = None"
    using c by (rule conjunct1)
  have d: "cpuReq (rollup \<lparr>allocatableCPU = 0, allocatableMemory = 5943857\<rparr>
              (Some \<lparr>usageCPU = 58, usageMemory = 2144333\<rparr>)
              [(\<lparr>requestCPU = 704, limitCPU = 304, requestMemory = 807403,
                 limitMemory = 375390\<rparr>, None)]) = 704"
    using c by simp
  show ?thesis
    using h a z b d by simp
qed

lemma rollup_end_to_end:
  "rollup \<lparr>allocatableCPU = 3600, allocatableMemory = 5943857\<rparr>
     (Some \<lparr>usageCPU = 58, usageMemory = 2144333\<rparr>)
     [(\<lparr>requestCPU = 704, limitCPU = 304, requestMemory = 807403, limitMemory = 375390\<rparr>, None)]
   = \<lparr>cpuUse = Some 58, cpuReq = 704, cpuLim = 304, cpuAlloc = 3600,
      cpuUseP = Some 1, cpuReqP = Some 19, cpuLimP = Some 8,
      memUse = Some 2144333, memReq = 807403, memLim = 375390, memAlloc = 5943857,
      memUseP = Some 36, memReqP = Some 13, memLimP = Some 6\<rparr>"
  by code_simp

end
